theory Spec2Isabelle
  imports Main "HOL-Library.Word"
begin

unbundle bit_operations_syntax

section \<open>Module files: header and checksum (lib/semantics/mod-file.cc)\<close>

text \<open>
  A module file starts with one header line: the magic string followed by the checksum of
  the body, written as hexadecimal digits.  The checksum loop works on a 64-bit unsigned
  integer, which is a \<open>64 word\<close> here: multiplication wraps around as in the source.
\<close>

definition magic :: string where
  "magic = ''!mod$ v1 sum:''"

definition digits :: string where
  "digits = ''0123456789abcdef''"

text \<open>One round of the loop body of \<open>CheckSum\<close>: \<open>hash ^= c & 0xff; hash *= 0x100000001b3\<close>.\<close>

definition CheckSum_step :: "64 word \<Rightarrow> char \<Rightarrow> 64 word" where
  "CheckSum_step hash c = (hash XOR (of_char c AND 0xff)) * 0x100000001b3"

fun CheckSum_hash :: "64 word \<Rightarrow> string \<Rightarrow> 64 word" where
  "CheckSum_hash hash [] = hash"
| "CheckSum_hash hash (c # cs) = CheckSum_hash (CheckSum_step hash c) cs"

lemma unat_drop_bit4_less:
  fixes hash :: "64 word"
  assumes "hash \<noteq> 0"
  shows "unat (drop_bit 4 hash) < unat hash"
proof -
  have "unat hash \<noteq> 0" using assms by (simp add: unat_eq_0)
  moreover have "unat (drop_bit 4 hash) = unat hash div 16"
    by (simp add: drop_bit_eq_div unat_div)
  ultimately show ?thesis by simp
qed

text \<open>
  The second loop of \<open>CheckSum\<close>: \<open>for (size_t i{16}; hash != 0; hash >>= 4)
  result[--i] = digits[hash & 0xf]\<close>.  The index \<open>i\<close> starts at 16 and the hash has
  64 bits, so the loop runs at most 16 times and \<open>--i\<close> never goes below zero.
\<close>

function CheckSum_digits :: "nat \<Rightarrow> 64 word \<Rightarrow> string \<Rightarrow> string" where
  "CheckSum_digits i hash result =
     (if hash \<noteq> 0
      then CheckSum_digits (i - 1) (drop_bit 4 hash)
             (result[i - 1 := digits ! unat (hash AND 0xf)])
      else result)"
  by pat_completeness auto
termination
  by (relation "measure (\<lambda>(i, hash, result). unat hash)") (simp_all add: unat_drop_bit4_less)

definition CheckSum :: "string \<Rightarrow> string" where
  "CheckSum s =
     CheckSum_digits 16 (CheckSum_hash 0xcbf29ce484222325 s) (replicate 16 CHR ''0'')"

definition GetHeader :: "string \<Rightarrow> string" where
  "GetHeader all = magic @ CheckSum all"

subsection \<open>The header as the specification words it\<close>

text \<open>
  The 64-bit FNV-1a hash: start from the offset basis, and for each byte first XOR the
  byte into the hash, then multiply by the FNV prime.
\<close>

definition spec_fnv1a64 :: "string \<Rightarrow> 64 word" where
  "spec_fnv1a64 body =
     fold (\<lambda>c h. (h XOR of_char c) * 0x100000001b3) body 0xcbf29ce484222325"

text \<open>A lowercase hexadecimal digit: \<open>0\<close> to \<open>9\<close>, then \<open>a\<close> to \<open>f\<close>.\<close>

definition spec_hexdigit :: "nat \<Rightarrow> char" where
  "spec_hexdigit n = (if n < 10 then char_of (48 + n) else char_of (87 + n))"

text \<open>Sixteen digits, most significant nibble first, so small values are padded with zeros.\<close>

definition spec_hex16 :: "64 word \<Rightarrow> string" where
  "spec_hex16 w =
     map (\<lambda>k. spec_hexdigit (unat (drop_bit (4 * (15 - k)) w AND 0xf))) [0..<16]"

subsection \<open>The checksum loop computes the FNV-1a hash in hexadecimal\<close>

lemma of_char_and_ff: "(of_char c :: 64 word) AND 0xff = of_char c"
proof -
  have n: "take_bit 8 (of_char c :: nat) = of_char c"
    by (simp add: take_bit_eq_mod)
  have "(of_char c :: 64 word) = of_nat (of_char c)"
    by (simp only: of_nat_of_char)
  then have "take_bit 8 (of_char c :: 64 word) = of_nat (take_bit 8 (of_char c :: nat))"
    by (simp only: of_nat_take_bit)
  then have "take_bit 8 (of_char c :: 64 word) = of_char c"
    by (simp only: n of_nat_of_char)
  moreover have "(0xff :: 64 word) = mask 8"
    by (simp add: mask_eq_exp_minus_1)
  ultimately show ?thesis
    by (simp only: take_bit_eq_mask)
qed

lemma CheckSum_hash_fold:
  "CheckSum_hash h s = fold (\<lambda>c h. (h XOR of_char c) * 0x100000001b3) s h"
  by (induction s arbitrary: h) (simp_all add: CheckSum_step_def of_char_and_ff)

lemma digits_spec_hexdigit_all: "\<forall>n \<in> set [0..<16]. digits ! n = spec_hexdigit n"
  by code_simp

lemma digits_nth_spec_hexdigit:
  assumes "n < 16"
  shows "digits ! n = spec_hexdigit n"
proof -
  have "n \<in> set [0..<16]" using assms by simp
  then show ?thesis
    using digits_spec_hexdigit_all by blast
qed

lemma spec_hexdigit_0: "spec_hexdigit 0 = CHR ''0''"
  by code_simp

lemma unat_and_15_less:
  fixes w :: "64 word"
  shows "unat (w AND 0xf) < 16"
proof -
  have "unat (w AND 0xf) \<le> unat (0xf :: 64 word)"
    by (rule word_and_le1 [THEN word_le_nat_alt [THEN iffD1]])
  then show ?thesis by simp
qed

lemma nibble_digit:
  fixes w :: "64 word"
  shows "digits ! unat (w AND 0xf) = spec_hexdigit (unat (w AND 0xf))"
  by (rule digits_nth_spec_hexdigit) (rule unat_and_15_less)

lemma CheckSum_digits_general:
  "i \<le> length result \<Longrightarrow> drop_bit (4 * i) hash = 0 \<Longrightarrow>
   (\<forall>j<i. result ! j = CHR ''0'') \<Longrightarrow>
   CheckSum_digits i hash result =
     map (\<lambda>j. spec_hexdigit (unat (drop_bit (4 * (i - 1 - j)) hash AND 0xf))) [0..<i]
       @ drop i result"
proof (induction i hash result rule: CheckSum_digits.induct)
  case (1 i hash result)
  show ?case
  proof (cases "hash = 0")
    case True
    have "take i result = map (\<lambda>j. CHR ''0'') [0..<i]"
      using 1(2,4) by (intro nth_equalityI) simp_all
    then have "result = map (\<lambda>j. CHR ''0'') [0..<i] @ drop i result"
      by (metis append_take_drop_id)
    then show ?thesis using True
      by (subst CheckSum_digits.simps) (simp add: spec_hexdigit_0)
  next
    case False
    then have ipos: "0 < i" using 1(3) by (cases i) simp_all
    let ?d = "digits ! unat (hash AND 0xf)"
    let ?r = "result[i - 1 := ?d]"
    have a: "i - 1 \<le> length ?r" using 1(2) by simp
    have b: "drop_bit (4 * (i - 1)) (drop_bit 4 hash) = 0"
      using 1(3) ipos by (simp add: drop_bit_drop_bit algebra_simps)
    have c: "\<forall>j<i - 1. ?r ! j = CHR ''0''" using 1(4) by simp
    have ih: "CheckSum_digits (i - 1) (drop_bit 4 hash) ?r =
       map (\<lambda>j. spec_hexdigit
              (unat (drop_bit (4 * (i - 1 - 1 - j)) (drop_bit 4 hash) AND 0xf))) [0..<i - 1]
         @ drop (i - 1) ?r"
      using 1(1)[OF False a b c] .
    have d1: "drop (i - 1) ?r = ?d # drop i result"
      using 1(2) ipos by (cases i) (simp_all add: Cons_nth_drop_Suc[symmetric])
    have d2: "map (\<lambda>j. spec_hexdigit
              (unat (drop_bit (4 * (i - 1 - 1 - j)) (drop_bit 4 hash) AND 0xf))) [0..<i - 1]
        = map (\<lambda>j. spec_hexdigit (unat (drop_bit (4 * (i - 1 - j)) hash AND 0xf))) [0..<i - 1]"
    proof (rule map_cong[OF refl])
      fix j assume "j \<in> set [0..<i - 1]"
      then have "j < i - 1" by simp
      then have "4 * (i - 1 - 1 - j) + 4 = 4 * (i - 1 - j)" by simp
      then show "spec_hexdigit (unat (drop_bit (4 * (i - 1 - 1 - j)) (drop_bit 4 hash) AND 0xf))
          = spec_hexdigit (unat (drop_bit (4 * (i - 1 - j)) hash AND 0xf))"
        by (simp add: drop_bit_drop_bit add.commute)
    qed
    have d3: "[0..<i] = [0..<i - 1] @ [i - 1]"
      using ipos by (cases i) simp_all
    have "CheckSum_digits i hash result = CheckSum_digits (i - 1) (drop_bit 4 hash) ?r"
      using False by (subst CheckSum_digits.simps) simp
    also have "\<dots> =
        map (\<lambda>j. spec_hexdigit (unat (drop_bit (4 * (i - 1 - j)) hash AND 0xf))) [0..<i - 1]
         @ ?d # drop i result"
      using ih d1 d2 by simp
    also have "\<dots> =
        map (\<lambda>j. spec_hexdigit (unat (drop_bit (4 * (i - 1 - j)) hash AND 0xf)))
          ([0..<i - 1] @ [i - 1]) @ drop i result"
      by (simp add: nibble_digit)
    also have "\<dots> =
        map (\<lambda>j. spec_hexdigit (unat (drop_bit (4 * (i - 1 - j)) hash AND 0xf))) [0..<i]
          @ drop i result"
      by (simp only: d3[symmetric])
    finally show ?thesis .
  qed
qed

lemma CheckSum_eq: "CheckSum s = spec_hex16 (spec_fnv1a64 s)"
proof -
  have z: "drop_bit (4 * 16) (CheckSum_hash 0xcbf29ce484222325 s) = 0"
    by (simp add: drop_bit_word_beyond)
  have l: "16 \<le> length (replicate 16 CHR ''0'')" by simp
  have n: "\<forall>j<16. replicate 16 CHR ''0'' ! j = CHR ''0''" by simp
  show ?thesis
    unfolding CheckSum_def spec_hex16_def spec_fnv1a64_def CheckSum_hash_fold[symmetric]
    by (simp only: CheckSum_digits_general[OF l z n]) simp
qed

lemma spec_hexdigit_lowercase:
  assumes "n < 16"
  shows "spec_hexdigit n \<in> set ''0123456789abcdef''"
proof -
  have "digits ! n \<in> set digits"
    using assms by (intro nth_mem) (simp add: digits_def)
  then show ?thesis
    using assms by (simp only: digits_nth_spec_hexdigit) (simp only: digits_def)
qed

lemma spec_hex16_lowercase: "set (spec_hex16 w) \<subseteq> set ''0123456789abcdef''"
proof
  fix c assume "c \<in> set (spec_hex16 w)"
  then obtain k where "c = spec_hexdigit (unat (drop_bit (4 * (15 - k)) w AND 0xf))"
    unfolding spec_hex16_def by auto
  then show "c \<in> set ''0123456789abcdef''"
    using spec_hexdigit_lowercase[OF unat_and_15_less] by simp
qed

text \<open>
  C5.  For every module body, the header the writer prepends is the magic
  \<open>!mod$ v1 sum:\<close> followed by exactly 16 lowercase hexadecimal digits, padded with
  zeros on the left, that spell the 64-bit FNV-1a hash of the body bytes (offset basis
  \<open>0xcbf29ce484222325\<close>, prime \<open>0x100000001b3\<close>, each byte XORed into the hash before
  the multiplication).
\<close>

theorem GetHeader_is_magic_fnv1a_hex:
  "GetHeader body = ''!mod$ v1 sum:'' @ spec_hex16 (spec_fnv1a64 body)
   \<and> length (spec_hex16 (spec_fnv1a64 body)) = 16
   \<and> set (spec_hex16 (spec_fnv1a64 body)) \<subseteq> set ''0123456789abcdef''"
proof -
  have "GetHeader body = ''!mod$ v1 sum:'' @ spec_hex16 (spec_fnv1a64 body)"
    by (simp add: GetHeader_def magic_def CheckSum_eq)
  moreover have "length (spec_hex16 (spec_fnv1a64 body)) = 16"
    by (simp add: spec_hex16_def)
  ultimately show ?thesis
    using spec_hex16_lowercase by blast
qed

text \<open>The header of the one-byte body \<open>a\<close>, a published FNV-1a test vector.\<close>

theorem GetHeader_is_magic_fnv1a_hex_witness:
  "GetHeader ''a'' = ''!mod$ v1 sum:af63dc4c8601ec8c''"
proof -
  have "spec_hex16 (spec_fnv1a64 ''a'') = ''af63dc4c8601ec8c''"
    by code_simp
  then show ?thesis
    using GetHeader_is_magic_fnv1a_hex [of "''a''"] by simp
qed


section \<open>Writing a module file (WriteFile, FileContentsMatch)\<close>

text \<open>
  \<open>WriteFile\<close> works on the disk through one \<open>std::fstream\<close>.  The model keeps what
  the function can observe: for each path the bytes of the file and whether the process
  may read and write it, the paths at which a new file may be created, a log of every
  \<open>open\<close> call with its mode, and a log of every write that reached a file, with the
  path, the position and the bytes.  A function that leaves the disk as it was but for the
  log of opens has therefore written nothing.  Running out of disk space is not modelled.
\<close>

datatype openmode = In_Only | In_Out | Out_Only

record disk_file =
  contents :: string
  readable :: bool
  writable :: bool

record disk =
  files :: "string \<rightharpoonup> disk_file"
  creatable :: "string set"
  opened :: "(string \<times> openmode) list"
  written :: "(string \<times> nat \<times> string) list"

text \<open>The stream: the path it is attached to (if the open succeeded), failbit, position.\<close>

record fstream =
  attached :: "string option"
  failbit :: bool
  pos :: nat

definition newline :: char where
  "newline = CHR 0x0A"

text \<open>\<open>GetFileSize\<close>: the size reported by \<open>stat\<close>, or 0 when \<open>stat\<close> fails.\<close>

definition GetFileSize :: "disk \<Rightarrow> string \<Rightarrow> nat" where
  "GetFileSize d path = (case files d path of Some f \<Rightarrow> length (contents f) | None \<Rightarrow> 0)"

text \<open>
  \<open>stream.open(path, mode)\<close>.  With \<open>in\<close> alone the file must exist and be
  readable.  With \<open>in | out\<close> the file must exist and be readable and writable; it is
  not truncated.  With \<open>out\<close> alone an existing writable file is
  truncated, and a missing file is created where the directory allows it.  A failed open
  sets failbit.
\<close>

definition stream_open :: "string \<Rightarrow> openmode \<Rightarrow> disk \<Rightarrow> fstream \<times> disk" where
  "stream_open path mode d =
     (let d' = d\<lparr>opened := opened d @ [(path, mode)]\<rparr>;
          ok = \<lparr>attached = Some path, failbit = False, pos = 0\<rparr>;
          bad = \<lparr>attached = None, failbit = True, pos = 0\<rparr>
      in case mode of
           In_Only \<Rightarrow>
             (case files d path of
                Some f \<Rightarrow> if readable f then (ok, d') else (bad, d')
              | None \<Rightarrow> (bad, d'))
         | In_Out \<Rightarrow>
             (case files d path of
                Some f \<Rightarrow> if readable f \<and> writable f then (ok, d') else (bad, d')
              | None \<Rightarrow> (bad, d'))
         | Out_Only \<Rightarrow>
             (case files d path of
                Some f \<Rightarrow>
                  if writable f
                  then (ok, d'\<lparr>files := (files d)(path \<mapsto> f\<lparr>contents := []\<rparr>)\<rparr>)
                  else (bad, d')
              | None \<Rightarrow>
                  if path \<in> creatable d
                  then (ok, d'\<lparr>files := (files d)(path \<mapsto>
                              \<lparr>contents = [], readable = True, writable = True\<rparr>)\<rparr>)
                  else (bad, d')))"

text \<open>\<open>stream.get(c)\<close>: the next byte, or failure (failbit) at end of file or on a bad stream.\<close>

definition stream_get :: "fstream \<Rightarrow> disk \<Rightarrow> char option \<times> fstream" where
  "stream_get st d =
     (if failbit st then (None, st)
      else case attached st of
             None \<Rightarrow> (None, st\<lparr>failbit := True\<rparr>)
           | Some path \<Rightarrow>
               (case files d path of
                  None \<Rightarrow> (None, st\<lparr>failbit := True\<rparr>)
                | Some f \<Rightarrow>
                    if pos st < length (contents f)
                    then (Some (contents f ! pos st), st\<lparr>pos := pos st + 1\<rparr>)
                    else (None, st\<lparr>failbit := True\<rparr>)))"

text \<open>\<open>stream.seekp(0)\<close> does nothing on a stream whose failbit is set.\<close>

definition stream_seekp0 :: "fstream \<Rightarrow> fstream" where
  "stream_seekp0 st = (if failbit st then st else st\<lparr>pos := 0\<rparr>)"

text \<open>
  \<open>stream << bytes\<close>: on a good stream the bytes overwrite the file from the current
  position on, extending it if needed, and the write is logged; on a bad stream nothing is
  written.
\<close>

definition stream_write :: "string \<Rightarrow> fstream \<Rightarrow> disk \<Rightarrow> fstream \<times> disk" where
  "stream_write bytes st d =
     (if failbit st then (st, d)
      else case attached st of
             None \<Rightarrow> (st\<lparr>failbit := True\<rparr>, d)
           | Some path \<Rightarrow>
               (case files d path of
                  None \<Rightarrow> (st\<lparr>failbit := True\<rparr>, d)
                | Some f \<Rightarrow>
                    (st\<lparr>pos := pos st + length bytes\<rparr>,
                     d\<lparr>files := (files d)(path \<mapsto>
                          f\<lparr>contents := take (pos st) (contents f) @ bytes
                                 @ drop (pos st + length bytes) (contents f)\<rparr>),
                       written := written d @ [(path, pos st, bytes)]\<rparr>)))"

text \<open>\<open>stream.close()\<close> sets failbit when no file is open.\<close>

definition stream_close :: "fstream \<Rightarrow> fstream" where
  "stream_close st =
     (case attached st of
        None \<Rightarrow> st\<lparr>failbit := True\<rparr>
      | Some path \<Rightarrow> st\<lparr>attached := None\<rparr>)"

text \<open>
  One comparison loop of \<open>FileContentsMatch\<close>:
  \<open>if (!stream.get(c) || c != expected[i]) return false\<close> for each expected byte.
\<close>

fun match_chars :: "string \<Rightarrow> fstream \<Rightarrow> disk \<Rightarrow> bool \<times> fstream" where
  "match_chars [] st d = (True, st)"
| "match_chars (x # xs) st d =
     (case stream_get st d of
        (None, st') \<Rightarrow> (False, st')
      | (Some c, st') \<Rightarrow> if c \<noteq> x then (False, st') else match_chars xs st' d)"

definition FileContentsMatch :: "fstream \<Rightarrow> string \<Rightarrow> string \<Rightarrow> disk \<Rightarrow> bool \<times> fstream" where
  "FileContentsMatch st header body d =
     (case match_chars header st d of
        (False, st1) \<Rightarrow> (False, st1)
      | (True, st1) \<Rightarrow>
          (case stream_get st1 d of
             (None, st2) \<Rightarrow> (False, st2)
           | (Some c, st2) \<Rightarrow>
               if c \<noteq> newline then (False, st2)
               else (case match_chars body st2 d of
                       (False, st3) \<Rightarrow> (False, st3)
                     | (True, st3) \<Rightarrow>
                         (case stream_get st3 d of
                            (None, st4) \<Rightarrow> (True, st4)
                          | (Some c', st4) \<Rightarrow> (False, st4)))))"

text \<open>
  \<open>WriteFile(path, contents)\<close> returns whether it succeeded, and the disk afterwards.
  The three output operations \<open>stream << header << '\n' << contents\<close> are one write.
\<close>

definition WriteFile :: "string \<Rightarrow> string \<Rightarrow> disk \<Rightarrow> bool \<times> disk" where
  "WriteFile path body d =
     (let header = GetHeader body;
          size = GetFileSize d path
      in if size = length header + 1 + length body
         then (case stream_open path In_Out d of
                 (st, d1) \<Rightarrow>
                   (case FileContentsMatch st header body d1 of
                      (True, st1) \<Rightarrow> (True, d1)
                    | (False, st1) \<Rightarrow>
                        (case stream_write (header @ newline # body) (stream_seekp0 st1) d1 of
                           (st2, d2) \<Rightarrow> (\<not> failbit (stream_close st2), d2))))
         else (case stream_open path Out_Only d of
                 (st, d1) \<Rightarrow>
                   (case stream_write (header @ newline # body) st d1 of
                      (st2, d2) \<Rightarrow> (\<not> failbit (stream_close st2), d2))))"


subsection \<open>When the file on disk already has the contents to be written\<close>

lemma match_chars_ok:
  assumes "attached st = Some path" "\<not> failbit st" "files d path = Some f"
    and "take (length xs) (drop (pos st) (contents f)) = xs"
  shows "match_chars xs st d = (True, st\<lparr>pos := pos st + length xs\<rparr>)"
  using assms
proof (induction xs arbitrary: st)
  case Nil
  then show ?case by simp
next
  case (Cons x xs)
  from Cons.prems(4) have lt: "pos st < length (contents f)"
    by (cases "pos st < length (contents f)") simp_all
  have dr: "drop (pos st) (contents f) = contents f ! pos st # drop (pos st + 1) (contents f)"
    using lt by (simp add: Cons_nth_drop_Suc)
  from Cons.prems(4) have hd: "contents f ! pos st = x"
    by (simp add: dr)
  from Cons.prems(4) have tl: "take (length xs) (drop (pos st + 1) (contents f)) = xs"
    by (simp add: dr)
  have g: "stream_get st d = (Some x, st\<lparr>pos := pos st + 1\<rparr>)"
    using Cons.prems(1-3) lt hd by (simp add: stream_get_def)
  have "match_chars xs (st\<lparr>pos := pos st + 1\<rparr>) d
        = (True, st\<lparr>pos := pos st + 1\<rparr>\<lparr>pos := pos (st\<lparr>pos := pos st + 1\<rparr>) + length xs\<rparr>)"
    by (rule Cons.IH) (use Cons.prems tl in simp_all)
  then show ?case using g by simp
qed

lemma FileContentsMatch_same:
  assumes "attached st = Some path" "\<not> failbit st" "pos st = 0" "files d path = Some f"
    and "contents f = header @ newline # body"
  shows "fst (FileContentsMatch st header body d) = True"
proof -
  have m1: "match_chars header st d = (True, st\<lparr>pos := length header\<rparr>)"
    using match_chars_ok[of st path d f header] assms by simp
  have g1: "stream_get (st\<lparr>pos := length header\<rparr>) d = (Some newline, st\<lparr>pos := length header + 1\<rparr>)"
    using assms by (simp add: stream_get_def nth_append)
  have m2: "match_chars body (st\<lparr>pos := length header + 1\<rparr>) d
      = (True, st\<lparr>pos := length header + 1 + length body\<rparr>)"
    using match_chars_ok[of "st\<lparr>pos := length header + 1\<rparr>" path d f body] assms by simp
  have g2: "stream_get (st\<lparr>pos := length header + 1 + length body\<rparr>) d
      = (None, st\<lparr>pos := length header + 1 + length body, failbit := True\<rparr>)"
    using assms by (simp add: stream_get_def)
  show ?thesis
    using m1 g1 m2 g2 by (simp add: FileContentsMatch_def)
qed


lemma stream_get_attached: "attached (snd (stream_get st d)) = attached st"
  by (simp add: stream_get_def split: option.splits)

lemma match_chars_attached: "attached (snd (match_chars xs st d)) = attached st"
proof (induction xs arbitrary: st)
  case Nil
  then show ?case by simp
next
  case (Cons x xs)
  show ?case
  proof (cases "stream_get st d")
    case (Pair r st')
    then have a: "attached st' = attached st"
      using stream_get_attached[of st d] by simp
    show ?thesis
      using Pair a Cons.IH[of st'] by (cases r) simp_all
  qed
qed

lemma FileContentsMatch_attached:
  "attached (snd (FileContentsMatch st header body d)) = attached st"
proof -
  obtain b1 st1 where m1: "match_chars header st d = (b1, st1)" by fastforce
  obtain r2 st2 where g2: "stream_get st1 d = (r2, st2)" by fastforce
  obtain b3 st3 where m3: "match_chars body st2 d = (b3, st3)" by fastforce
  obtain r4 st4 where g4: "stream_get st3 d = (r4, st4)" by fastforce
  have a1: "attached st1 = attached st" using match_chars_attached[of header st d] m1 by simp
  have a2: "attached st2 = attached st1" using stream_get_attached[of st1 d] g2 by simp
  have a3: "attached st3 = attached st2" using match_chars_attached[of body st2 d] m3 by simp
  have a4: "attached st4 = attached st3" using stream_get_attached[of st3 d] g4 by simp
  show ?thesis
    using m1 g2 m3 g4 a1 a2 a3 a4
    by (simp add: FileContentsMatch_def split: option.splits bool.splits)
qed


lemma stream_get_failbit: "failbit st \<Longrightarrow> stream_get st d = (None, st)"
  by (simp add: stream_get_def)

lemma FileContentsMatch_failbit:
  assumes "failbit st" "header \<noteq> []"
  shows "FileContentsMatch st header body d = (False, st)"
proof -
  obtain x xs where "header = x # xs" using assms(2) by (cases header) simp_all
  then show ?thesis
    using assms(1) by (simp add: FileContentsMatch_def stream_get_failbit)
qed

lemma GetHeader_nonempty: "GetHeader body \<noteq> []"
  by (simp add: GetHeader_def magic_def)

lemma write_close_failbit:
  assumes "failbit st"
  shows "stream_write bytes st d = (st, d)" and "failbit (stream_close st)"
    and "failbit (stream_seekp0 st)"
  using assms by (simp_all add: stream_write_def stream_close_def stream_seekp0_def split: option.splits)

lemma stream_get_Some:
  assumes "stream_get st d = (Some c, st')" "attached st = Some path" "files d path = Some f"
  shows "\<not> failbit st \<and> pos st < length (contents f) \<and> c = contents f ! pos st
         \<and> st' = st\<lparr>pos := pos st + 1\<rparr>"
  using assms by (auto simp: stream_get_def split: if_splits)

lemma match_chars_True:
  assumes "match_chars xs st d = (True, st')" "attached st = Some path" "files d path = Some f"
    and "\<not> failbit st"
  shows "take (length xs) (drop (pos st) (contents f)) = xs \<and> pos st' = pos st + length xs
         \<and> \<not> failbit st' \<and> attached st' = Some path"
  using assms
proof (induction xs arbitrary: st)
  case Nil
  then show ?case by simp
next
  case (Cons x xs)
  obtain r st1 where g: "stream_get st d = (r, st1)" by fastforce
  from Cons.prems(1) g obtain c where r: "r = Some c"
    by (cases r) simp_all
  from Cons.prems(1) g r have cx: "c = x" and m: "match_chars xs st1 d = (True, st')"
    by (simp_all split: if_splits)
  have s: "pos st < length (contents f)" "c = contents f ! pos st" "st1 = st\<lparr>pos := pos st + 1\<rparr>"
    using stream_get_Some[OF g[unfolded r] Cons.prems(2,3)] by simp_all
  have ih: "take (length xs) (drop (pos st1) (contents f)) = xs \<and> pos st' = pos st1 + length xs
         \<and> \<not> failbit st' \<and> attached st' = Some path"
    by (rule Cons.IH[OF m]) (use s Cons.prems in simp_all)
  have dr: "drop (pos st) (contents f) = contents f ! pos st # drop (pos st + 1) (contents f)"
    using s(1) by (simp add: Cons_nth_drop_Suc)
  show ?case using ih s cx by (simp add: dr)
qed

lemma FileContentsMatch_True:
  assumes "FileContentsMatch st header body d = (True, st')"
    and "attached st = Some path" "files d path = Some f" "\<not> failbit st" "pos st = 0"
    and "length (contents f) = length header + 1 + length body"
  shows "contents f = header @ newline # body"
proof -
  obtain b1 st1 where m1: "match_chars header st d = (b1, st1)" by fastforce
  obtain r2 st2 where g2: "stream_get st1 d = (r2, st2)" by fastforce
  obtain b3 st3 where m3: "match_chars body st2 d = (b3, st3)" by fastforce
  have b1: "b1" using assms(1) m1 by (cases b1) (simp_all add: FileContentsMatch_def)
  have p1: "take (length header) (drop (pos st) (contents f)) = header" "pos st1 = pos st + length header"
         "\<not> failbit st1" "attached st1 = Some path"
    using match_chars_True[OF m1[unfolded b1[THEN eqTrueI]] assms(2,3,4)] by simp_all
  obtain c where r2: "r2 = Some c"
    using assms(1) m1 b1 g2 by (cases r2) (simp_all add: FileContentsMatch_def)
  have c: "c = newline"
    using assms(1) m1 b1 g2 r2 by (simp add: FileContentsMatch_def split: if_splits)
  have p2: "pos st1 < length (contents f)" "c = contents f ! pos st1" "st2 = st1\<lparr>pos := pos st1 + 1\<rparr>"
    using stream_get_Some[OF g2[unfolded r2] p1(4) assms(3)] by simp_all
  have b3: "b3"
    using assms(1) m1 b1 g2 r2 c m3 by (cases b3) (simp_all add: FileContentsMatch_def)
  have p3: "take (length body) (drop (pos st2) (contents f)) = body"
    using match_chars_True[OF m3[unfolded b3[THEN eqTrueI]], of path f] p1 p2 assms(3) by simp
  have h: "take (length header) (contents f) = header" using p1(1) assms(5) by simp
  have n: "contents f ! length header = newline" using p2 p1 c assms(5) by simp
  have bdy: "drop (length header + 1) (contents f) = body"
    using p3 p2 p1 assms(5,6) by simp
  have "contents f = take (length header) (contents f) @ contents f ! length header
          # drop (length header + 1) (contents f)"
    using assms(6) by (simp add: id_take_nth_drop)
  then show ?thesis using h n bdy by simp
qed

lemma WriteFile_success_contents:
  assumes "WriteFile path body d = (True, d1)"
  shows "\<exists>f. files d1 path = Some f \<and> contents f = GetHeader body @ newline # body"
proof (cases "GetFileSize d path = length (GetHeader body) + 1 + length body")
  case True
  obtain st d' where op: "stream_open path In_Out d = (st, d')" by fastforce
  obtain m st1 where fm: "FileContentsMatch st (GetHeader body) body d' = (m, st1)" by fastforce
  show ?thesis
  proof (cases "\<exists>f. files d path = Some f \<and> readable f \<and> writable f")
    case False
    then have "st = \<lparr>attached = None, failbit = True, pos = 0\<rparr>"
      using op by (auto simp: stream_open_def Let_def split: option.splits if_splits)
    then have fb: "failbit st" by simp
    have "FileContentsMatch st (GetHeader body) body d' = (False, st)"
      using FileContentsMatch_failbit[OF fb GetHeader_nonempty] .
    then have "WriteFile path body d = (False, d')"
      using True op write_close_failbit[OF write_close_failbit(3)[OF fb]]
      by (simp add: WriteFile_def Let_def)
    then show ?thesis using assms by simp
  next
    case ex: True
    then obtain f where f: "files d path = Some f" "readable f" "writable f" by blast
    have st: "st = \<lparr>attached = Some path, failbit = False, pos = 0\<rparr>"
      and d': "d' = d\<lparr>opened := opened d @ [(path, In_Out)]\<rparr>"
      using op f by (simp_all add: stream_open_def Let_def)
    have len: "length (contents f) = length (GetHeader body) + 1 + length body"
      using True f by (simp add: GetFileSize_def)
    show ?thesis
    proof (cases m)
      case mt: True
      then have "d1 = d'" using assms True op fm by (simp add: WriteFile_def Let_def)
      moreover have "contents f = GetHeader body @ newline # body"
        using FileContentsMatch_True[of st "GetHeader body" body d' st1 path f] fm mt st d' f len
        by simp
      ultimately show ?thesis using f d' by simp
    next
      case mf: False
      have at: "attached st1 = Some path"
        using FileContentsMatch_attached[of st "GetHeader body" body d'] fm st by simp
      show ?thesis
      proof (cases "failbit st1")
        case True
        then have "WriteFile path body d = (False, d')"
          using \<open>GetFileSize d path = _\<close> op fm mf write_close_failbit[OF write_close_failbit(3)[OF True]]
          by (simp add: WriteFile_def Let_def)
        then show ?thesis using assms by simp
      next
        case False
        then have "stream_write (GetHeader body @ newline # body) (stream_seekp0 st1) d'
          = (st1\<lparr>pos := length (GetHeader body @ newline # body)\<rparr>,
             d'\<lparr>files := (files d')(path \<mapsto> f\<lparr>contents := GetHeader body @ newline # body\<rparr>),
                written := written d' @ [(path, 0, GetHeader body @ newline # body)]\<rparr>)"
          using at f d' len by (simp add: stream_write_def stream_seekp0_def)
        then have "d1 = d'\<lparr>files := (files d')(path \<mapsto> f\<lparr>contents := GetHeader body @ newline # body\<rparr>),
                written := written d' @ [(path, 0, GetHeader body @ newline # body)]\<rparr>"
          using assms \<open>GetFileSize d path = _\<close> op fm mf by (simp add: WriteFile_def Let_def)
        then show ?thesis by simp
      qed
    qed
  qed
next
  case False
  obtain st d' where op: "stream_open path Out_Only d = (st, d')" by fastforce
  show ?thesis
  proof (cases "failbit st")
    case True
    then have "WriteFile path body d = (False, d')"
      using False op write_close_failbit[OF True]
      by (simp add: WriteFile_def Let_def)
    then show ?thesis using assms by simp
  next
    case nf: False
    then obtain f where st: "st = \<lparr>attached = Some path, failbit = False, pos = 0\<rparr>"
      and f: "files d' path = Some f" "contents f = []"
      using op by (auto simp: stream_open_def Let_def split: option.splits if_splits)
    have "stream_write (GetHeader body @ newline # body) st d'
          = (st\<lparr>pos := length (GetHeader body @ newline # body)\<rparr>,
             d'\<lparr>files := (files d')(path \<mapsto> f\<lparr>contents := GetHeader body @ newline # body\<rparr>),
                written := written d' @ [(path, 0, GetHeader body @ newline # body)]\<rparr>)"
      using st f by (simp add: stream_write_def)
    then have "d1 = d'\<lparr>files := (files d')(path \<mapsto> f\<lparr>contents := GetHeader body @ newline # body\<rparr>),
                written := written d' @ [(path, 0, GetHeader body @ newline # body)]\<rparr>"
      using assms False op by (simp add: WriteFile_def Let_def)
    then show ?thesis by simp
  qed
qed



lemma WriteFile_match:
  assumes f: "files d path = Some f" "contents f = GetHeader body @ newline # body"
      "readable f" "writable f"
  shows "WriteFile path body d = (True, d\<lparr>opened := opened d @ [(path, In_Out)]\<rparr>)"
proof -
  have sz: "GetFileSize d path = length (GetHeader body) + 1 + length body"
    using f by (simp add: GetFileSize_def)
  have op: "stream_open path In_Out d
      = (\<lparr>attached = Some path, failbit = False, pos = 0\<rparr>,
         d\<lparr>opened := opened d @ [(path, In_Out)]\<rparr>)"
    using f by (simp add: stream_open_def Let_def)
  have "fst (FileContentsMatch \<lparr>attached = Some path, failbit = False, pos = 0\<rparr>
           (GetHeader body) body (d\<lparr>opened := opened d @ [(path, In_Out)]\<rparr>)) = True"
    by (rule FileContentsMatch_same[where path = path and f = f]) (use f in simp_all)
  then obtain st1 where "FileContentsMatch \<lparr>attached = Some path, failbit = False, pos = 0\<rparr>
           (GetHeader body) body (d\<lparr>opened := opened d @ [(path, In_Out)]\<rparr>) = (True, st1)"
    by (metis prod.collapse)
  then show ?thesis
    using sz op by (simp add: WriteFile_def Let_def)
qed

lemma WriteFile_unwritable:
  assumes f: "files d path = Some f" "contents f = GetHeader body @ newline # body"
      "\<not> writable f"
  shows "WriteFile path body d = (False, d\<lparr>opened := opened d @ [(path, In_Out)]\<rparr>)"
proof -
  let ?bad = "\<lparr>attached = None, failbit = True, pos = 0\<rparr>"
  have sz: "GetFileSize d path = length (GetHeader body) + 1 + length body"
    using f by (simp add: GetFileSize_def)
  have op: "stream_open path In_Out d = (?bad, d\<lparr>opened := opened d @ [(path, In_Out)]\<rparr>)"
    using f by (simp add: stream_open_def Let_def)
  have fb: "failbit ?bad" by simp
  have "FileContentsMatch ?bad (GetHeader body) body (d\<lparr>opened := opened d @ [(path, In_Out)]\<rparr>)
      = (False, ?bad)"
    using FileContentsMatch_failbit[OF fb GetHeader_nonempty] .
  then show ?thesis
    using sz op write_close_failbit[OF write_close_failbit(3)[OF fb]]
    by (simp add: WriteFile_def Let_def)
qed

lemma GetHeader_a: "GetHeader ''a'' = ''!mod$ v1 sum:af63dc4c8601ec8c''"
  by code_simp

text \<open>
  A disk holding \<open>m.mod\<close> with exactly the bytes \<open>WriteFile\<close> would write for the
  body \<open>a\<close>; the flag says whether the process may write the file.
\<close>

definition disk_with_m_mod :: "bool \<Rightarrow> disk" where
  "disk_with_m_mod w =
     \<lparr>files = [''m.mod'' \<mapsto>
        \<lparr>contents = ''!mod$ v1 sum:af63dc4c8601ec8c'' @ newline # ''a'',
         readable = True, writable = w\<rparr>],
      creatable = {}, opened = [], written = []\<rparr>"

text \<open>
  C4, as the code has it.  If the file at the target path already holds exactly the header,
  a newline and the body, and the process can open it for reading and writing, then
  \<open>WriteFile\<close> returns true and leaves every file unchanged: its only access is one open
  in mode \<open>in | out\<close> (no truncation) for the comparison, and it writes nothing (the disk
  afterwards is the disk before with one more entry in the log of opens; the files and the
  log of writes are the same).  Hence a successful write leaves exactly these bytes, and
  writing the same body again (to a file that can be opened for reading and writing) returns
  true with the same bytes on disk and no further write.
\<close>

theorem WriteFile_touch_free:
  "(files d path = Some f \<and> contents f = GetHeader body @ newline # body
      \<and> readable f \<and> writable f
     \<longrightarrow> WriteFile path body d = (True, d\<lparr>opened := opened d @ [(path, In_Out)]\<rparr>))
   \<and> (WriteFile path body d = (True, d1) \<and> files d1 path = Some f1 \<and> readable f1 \<and> writable f1
     \<longrightarrow> contents f1 = GetHeader body @ newline # body
         \<and> WriteFile path body d1 = (True, d1\<lparr>opened := opened d1 @ [(path, In_Out)]\<rparr>))"
proof -
  have two: "contents f1 = GetHeader body @ newline # body"
    if "WriteFile path body d = (True, d1)" "files d1 path = Some f1"
    using WriteFile_success_contents[OF that(1)] that(2) by simp
  show ?thesis
    using WriteFile_match two by blast
qed

theorem WriteFile_touch_free_witness:
  "files (disk_with_m_mod True) ''m.mod''
     = Some \<lparr>contents = GetHeader ''a'' @ newline # ''a'', readable = True, writable = True\<rparr>
   \<and> WriteFile ''m.mod'' ''a'' (disk_with_m_mod True)
     = (True, (disk_with_m_mod True)\<lparr>opened := [(''m.mod'', In_Out)]\<rparr>)
   \<and> WriteFile ''m.mod'' ''a'' ((disk_with_m_mod True)\<lparr>opened := [(''m.mod'', In_Out)]\<rparr>)
     = (True, (disk_with_m_mod True)\<lparr>opened := [(''m.mod'', In_Out), (''m.mod'', In_Out)]\<rparr>)"
proof -
  let ?f = "\<lparr>contents = GetHeader ''a'' @ newline # ''a'', readable = True, writable = True\<rparr>"
  let ?d = "disk_with_m_mod True"
  let ?d1 = "?d\<lparr>opened := [(''m.mod'', In_Out)]\<rparr>"
  have f: "files ?d ''m.mod'' = Some ?f"
    by (simp add: disk_with_m_mod_def GetHeader_a)
  have f1: "files ?d1 ''m.mod'' = Some ?f"
    by (simp add: disk_with_m_mod_def GetHeader_a)
  have o: "opened ?d = []"
    by (simp add: disk_with_m_mod_def)
  have w1: "WriteFile ''m.mod'' ''a'' ?d = (True, ?d1)"
    using WriteFile_touch_free [of ?d "''m.mod''" ?f "''a''" ?d1 ?f] f o by simp
  have w2: "WriteFile ''m.mod'' ''a'' ?d1
      = (True, ?d\<lparr>opened := [(''m.mod'', In_Out), (''m.mod'', In_Out)]\<rparr>)"
    using WriteFile_touch_free [of ?d "''m.mod''" ?f "''a''" ?d1 ?f] f f1 w1 o by simp
  show ?thesis using f w1 w2 by simp
qed

text \<open>
  The claim as the specification words it fails in two ways: a file with the right bytes
  that the process may not write makes \<open>WriteFile\<close> return false, and where it returns
  true the file has been opened with write access (mode \<open>in | out\<close>).
\<close>

theorem WriteFile_touch_free_counterexample:
  "fst (WriteFile ''m.mod'' ''a'' (disk_with_m_mod False)) = False
   \<and> contents (the (files (disk_with_m_mod False) ''m.mod'')) = GetHeader ''a'' @ newline # ''a''
   \<and> opened (snd (WriteFile ''m.mod'' ''a'' (disk_with_m_mod True))) = [(''m.mod'', In_Out)]"
proof -
  let ?f = "\<lambda>w. \<lparr>contents = GetHeader ''a'' @ newline # ''a'', readable = True, writable = w\<rparr>"
  have f: "files (disk_with_m_mod w) ''m.mod'' = Some (?f w)" for w
    by (simp add: disk_with_m_mod_def GetHeader_a)
  have "WriteFile ''m.mod'' ''a'' (disk_with_m_mod False)
      = (False, (disk_with_m_mod False)\<lparr>opened := opened (disk_with_m_mod False) @ [(''m.mod'', In_Out)]\<rparr>)"
    by (rule WriteFile_unwritable[OF f]) simp_all
  moreover have "WriteFile ''m.mod'' ''a'' (disk_with_m_mod True)
      = (True, (disk_with_m_mod True)\<lparr>opened := opened (disk_with_m_mod True) @ [(''m.mod'', In_Out)]\<rparr>)"
    by (rule WriteFile_match[OF f]) simp_all
  ultimately show ?thesis
    by (simp add: disk_with_m_mod_def GetHeader_a)
qed


section \<open>The order of symbols in a module file (CollectSymbols)\<close>

text \<open>
  \<open>CollectSymbols\<close> reads three things of a symbol: which object it is (the function
  keeps a \<open>std::set\<close> of symbol pointers), the flag \<open>ParentComp\<close>, whether its details
  are \<open>NamelistDetails\<close>, and where its name starts in the source (\<open>name().begin()\<close>,
  a pointer into the source text, here an offset).
\<close>

datatype Details =
    ModuleDetails | DerivedTypeDetails | SubprogramDetails | GenericDetails | UseDetails
  | UseErrorDetails | ProcBindingDetails | GenericBindingDetails | NamelistDetails
  | CommonBlockDetails | FinalProcDetails | HostAssocDetails | MiscDetails
  | ObjectEntityDetails | ProcEntityDetails | TypeParamDetails

record Symbol =
  sym_addr :: nat
  name_begin :: nat
  flag_ParentComp :: bool
  details :: Details

text \<open>
  Of a scope, its name map and its map of common blocks, each as the list of pairs in the
  order the iteration \<open>for (const auto &pair : ...)\<close> visits them.
\<close>

record SymbolScope =
  scope_symbols :: "(string \<times> Symbol) list"
  commonBlocks :: "(string \<times> Symbol) list"

text \<open>
  The first loop: symbols flagged \<open>ParentComp\<close> are skipped, and a symbol is appended
  only if its pointer was not in the set before.  The state is the set \<open>symbols\<close> and the vector \<open>sorted\<close>.
\<close>

fun collect_scope_symbols ::
  "(string \<times> Symbol) list \<Rightarrow> nat set \<times> Symbol list \<Rightarrow> nat set \<times> Symbol list" where
  "collect_scope_symbols [] acc = acc"
| "collect_scope_symbols ((name, symbol) # rest) (symbols, sorted_vec) =
     (if \<not> flag_ParentComp symbol
      then (if sym_addr symbol \<notin> symbols
            then collect_scope_symbols rest (insert (sym_addr symbol) symbols, sorted_vec @ [symbol])
            else collect_scope_symbols rest (symbols, sorted_vec))
      else collect_scope_symbols rest (symbols, sorted_vec))"

text \<open>The second loop, over the common blocks, has no test of the flag.\<close>

fun collect_common_blocks ::
  "(string \<times> Symbol) list \<Rightarrow> nat set \<times> Symbol list \<Rightarrow> nat set \<times> Symbol list" where
  "collect_common_blocks [] acc = acc"
| "collect_common_blocks ((name, symbol) # rest) (symbols, sorted_vec) =
     (if sym_addr symbol \<notin> symbols
      then collect_common_blocks rest (insert (sym_addr symbol) symbols, sorted_vec @ [symbol])
      else collect_common_blocks rest (symbols, sorted_vec))"

text \<open>The comparison passed to \<open>std::sort\<close>.\<close>

definition symbol_less :: "Symbol \<Rightarrow> Symbol \<Rightarrow> bool" where
  "symbol_less x y =
     (let xIsNml = (details x = NamelistDetails);
          yIsNml = (details y = NamelistDetails)
      in if xIsNml \<noteq> yIsNml then xIsNml < yIsNml
         else name_begin x < name_begin y)"

text \<open>
  \<open>std::sort\<close> leaves the relative order of equivalent elements open.  The model sorts
  by insertion and keeps elements that compare equivalent in the order they have in the
  vector, which is one of the orders \<open>std::sort\<close> may produce; the theorems below state
  only what holds of every such order.
\<close>

fun insert_by :: "('a \<Rightarrow> 'a \<Rightarrow> bool) \<Rightarrow> 'a \<Rightarrow> 'a list \<Rightarrow> 'a list" where
  "insert_by cmp x [] = [x]"
| "insert_by cmp x (y # ys) =
     (if cmp y x then y # insert_by cmp x ys else x # y # ys)"

definition std_sort :: "('a \<Rightarrow> 'a \<Rightarrow> bool) \<Rightarrow> 'a list \<Rightarrow> 'a list" where
  "std_sort cmp xs = foldr (insert_by cmp) xs []"

definition CollectSymbols :: "SymbolScope \<Rightarrow> Symbol list" where
  "CollectSymbols scope =
     std_sort symbol_less
       (snd (collect_common_blocks (commonBlocks scope)
               (collect_scope_symbols (scope_symbols scope) ({}, []))))"


text \<open>What the two loops collect, as a set: the symbols of the name map that are not
  flagged \<open>ParentComp\<close>, and every symbol of the common-block map.\<close>

definition collected :: "SymbolScope \<Rightarrow> Symbol set" where
  "collected scope =
     {s \<in> snd ` set (scope_symbols scope). \<not> flag_ParentComp s} \<union> snd ` set (commonBlocks scope)"


text \<open>Between the loops the set holds exactly the pointers of the symbols in the vector,
  each of them once.\<close>

definition collect_inv :: "nat set \<times> Symbol list \<Rightarrow> bool" where
  "collect_inv acc = (fst acc = sym_addr ` set (snd acc) \<and> distinct (map sym_addr (snd acc)))"

lemma collect_scope_symbols_props:
  assumes "collect_inv acc"
  shows "collect_inv (collect_scope_symbols xs acc)
    \<and> set (snd (collect_scope_symbols xs acc))
         \<subseteq> set (snd acc) \<union> {s \<in> snd ` set xs. \<not> flag_ParentComp s}
    \<and> sym_addr ` set (snd (collect_scope_symbols xs acc))
         = sym_addr ` (set (snd acc) \<union> {s \<in> snd ` set xs. \<not> flag_ParentComp s})"
  using assms
proof (induction xs acc rule: collect_scope_symbols.induct)
  case (1 acc)
  then show ?case by simp
next
  case (2 name symbol rest symbols sorted_vec)
  show ?case
  proof (cases "flag_ParentComp symbol")
    case True
    then show ?thesis using 2 by auto
  next
    case npc: False
    show ?thesis
    proof (cases "sym_addr symbol \<in> symbols")
      case True
      then have "sym_addr symbol \<in> sym_addr ` set sorted_vec"
        using 2(4) by (simp add: collect_inv_def)
      then show ?thesis using 2(2)[OF npc _ 2(4)] npc True by auto
    next
      case False
      then have inv: "collect_inv (insert (sym_addr symbol) symbols, sorted_vec @ [symbol])"
        using 2(4) by (auto simp: collect_inv_def)
      show ?thesis using 2(1)[OF npc False inv] npc False by auto
    qed
  qed
qed

lemma collect_common_blocks_props:
  assumes "collect_inv acc"
  shows "collect_inv (collect_common_blocks xs acc)
    \<and> set (snd (collect_common_blocks xs acc)) \<subseteq> set (snd acc) \<union> snd ` set xs
    \<and> sym_addr ` set (snd (collect_common_blocks xs acc))
         = sym_addr ` (set (snd acc) \<union> snd ` set xs)"
  using assms
proof (induction xs acc rule: collect_common_blocks.induct)
  case (1 acc)
  then show ?case by simp
next
  case (2 name symbol rest symbols sorted_vec)
  show ?case
  proof (cases "sym_addr symbol \<in> symbols")
    case True
    then have "sym_addr symbol \<in> sym_addr ` set sorted_vec"
      using 2(3) by (simp add: collect_inv_def)
    then show ?thesis using 2(2)[OF _ 2(3)] True by auto
  next
    case False
    then have inv: "collect_inv (insert (sym_addr symbol) symbols, sorted_vec @ [symbol])"
      using 2(3) by (auto simp: collect_inv_def)
    show ?thesis using 2(1)[OF False inv] False by auto
  qed
qed


subsection \<open>Sorting by the comparison\<close>

lemma symbol_less_asym: "symbol_less x y \<Longrightarrow> \<not> symbol_less y x"
  by (auto simp: symbol_less_def Let_def split: if_splits)

lemma symbol_less_trans: "symbol_less x y \<Longrightarrow> symbol_less y z \<Longrightarrow> symbol_less x z"
  by (auto simp: symbol_less_def Let_def split: if_splits)

lemma symbol_le_trans: "\<not> symbol_less y x \<Longrightarrow> \<not> symbol_less z y \<Longrightarrow> \<not> symbol_less z x"
  by (auto simp: symbol_less_def Let_def split: if_splits)

lemma set_insert_by: "set (insert_by cmp x ys) = insert x (set ys)"
  by (induction ys) auto

lemma set_std_sort: "set (std_sort cmp xs) = set xs"
  by (induction xs) (simp_all add: std_sort_def set_insert_by)

lemma length_insert_by: "length (insert_by cmp x ys) = Suc (length ys)"
  by (induction ys) auto

lemma sorted_insert_by:
  "sorted_wrt (\<lambda>a b. \<not> symbol_less b a) ys \<Longrightarrow>
   sorted_wrt (\<lambda>a b. \<not> symbol_less b a) (insert_by symbol_less x ys)"
proof (induction ys)
  case Nil
  then show ?case by simp
next
  case (Cons y ys)
  show ?case
  proof (cases "symbol_less y x")
    case True
    then have "\<not> symbol_less x y" using symbol_less_asym by blast
    then show ?thesis using True Cons by (auto simp: set_insert_by)
  next
    case False
    have "\<not> symbol_less z x" if "z \<in> set ys" for z
    proof -
      have "\<not> symbol_less z y" using that Cons.prems by auto
      then show ?thesis using False symbol_le_trans by blast
    qed
    then show ?thesis using False Cons.prems by auto
  qed
qed

lemma sorted_std_sort: "sorted_wrt (\<lambda>a b. \<not> symbol_less b a) (std_sort symbol_less xs)"
  by (induction xs) (simp_all add: std_sort_def sorted_insert_by)

lemma distinct_map_insert_by:
  "distinct (map f (insert_by cmp x ys)) = (f x \<notin> f ` set ys \<and> distinct (map f ys))"
  by (induction ys) (auto simp: set_insert_by)

lemma distinct_map_std_sort: "distinct (map f (std_sort cmp xs)) = distinct (map f xs)"
  by (induction xs) (simp_all add: std_sort_def distinct_map_insert_by set_std_sort[unfolded std_sort_def])



subsection \<open>The collected list\<close>

lemma CollectSymbols_members:
  "set (CollectSymbols scope) \<subseteq> collected scope
   \<and> sym_addr ` set (CollectSymbols scope) = sym_addr ` collected scope
   \<and> distinct (map sym_addr (CollectSymbols scope))"
proof -
  let ?a = "collect_scope_symbols (scope_symbols scope) ({}, [])"
  let ?b = "collect_common_blocks (commonBlocks scope) ?a"
  have i0: "collect_inv ({}, [])" by (simp add: collect_inv_def)
  have a: "collect_inv ?a" "set (snd ?a) \<subseteq> {s \<in> snd ` set (scope_symbols scope). \<not> flag_ParentComp s}"
    "sym_addr ` set (snd ?a) = sym_addr ` {s \<in> snd ` set (scope_symbols scope). \<not> flag_ParentComp s}"
    using collect_scope_symbols_props[OF i0, of "scope_symbols scope"] by simp_all
  have b: "collect_inv ?b" "set (snd ?b) \<subseteq> set (snd ?a) \<union> snd ` set (commonBlocks scope)"
    "sym_addr ` set (snd ?b) = sym_addr ` (set (snd ?a) \<union> snd ` set (commonBlocks scope))"
    using collect_common_blocks_props[OF a(1), of "commonBlocks scope"] by simp_all
  have 1: "set (snd ?b) \<subseteq> collected scope"
    using a(2) b(2) unfolding collected_def by blast
  have 2: "sym_addr ` set (snd ?b) = sym_addr ` collected scope"
    using a(3) b(3) unfolding collected_def by (simp add: image_Un)
  have 3: "distinct (map sym_addr (snd ?b))"
    using b(1) by (simp add: collect_inv_def)
  show ?thesis
    using 1 2 3 by (simp add: CollectSymbols_def set_std_sort distinct_map_std_sort)
qed

text \<open>A scope with a namelist \<open>n\<close>, a parent component \<open>p\<close>, an object \<open>x\<close>, and a
  common block \<open>blk\<close> whose name stands in the source before that of \<open>x\<close>.\<close>

definition sym_n :: Symbol where
  "sym_n = \<lparr>sym_addr = 1, name_begin = 5, flag_ParentComp = False, details = NamelistDetails\<rparr>"

definition sym_p :: Symbol where
  "sym_p = \<lparr>sym_addr = 2, name_begin = 7, flag_ParentComp = True, details = ObjectEntityDetails\<rparr>"

definition sym_x :: Symbol where
  "sym_x = \<lparr>sym_addr = 3, name_begin = 20, flag_ParentComp = False, details = ObjectEntityDetails\<rparr>"

definition sym_blk :: Symbol where
  "sym_blk = \<lparr>sym_addr = 4, name_begin = 10, flag_ParentComp = False, details = CommonBlockDetails\<rparr>"

definition example_scope :: SymbolScope where
  "example_scope =
     \<lparr>scope_symbols = [(''n'', sym_n), (''p'', sym_p), (''x'', sym_x)],
      commonBlocks = [(''blk'', sym_blk)]\<rparr>"

lemma CollectSymbols_example: "CollectSymbols example_scope = [sym_blk, sym_x, sym_n]"
  by (simp add: CollectSymbols_def example_scope_def std_sort_def symbol_less_def
      sym_n_def sym_p_def sym_x_def sym_blk_def)

text \<open>
  C6, as the code has it.  The collected list holds, once each, the symbols of the scope's
  name map that are not flagged \<open>ParentComp\<close> and the symbols of its common-block map, and
  nothing else.  Every symbol flagged \<open>ParentComp\<close> is omitted from the list: the flag marks
  the synthetic parent component of an extended type, which no symbol of the common-block
  map is.  The list is sorted: every symbol that is not a namelist stands before every
  namelist, and within each of the two groups the source-name start offsets do not
  decrease.  Common-block symbols are sorted with all the others by their offset; they are
  not kept at the end.
\<close>

theorem CollectSymbols_order:
  "set (CollectSymbols scope) \<subseteq> collected scope
   \<and> sym_addr ` set (CollectSymbols scope) = sym_addr ` collected scope
   \<and> distinct (map sym_addr (CollectSymbols scope))
   \<and> ((\<forall>s \<in> snd ` set (commonBlocks scope). \<not> flag_ParentComp s)
        \<longrightarrow> (\<forall>s \<in> set (CollectSymbols scope). \<not> flag_ParentComp s))
   \<and> (\<forall>i j. i < j \<and> j < length (CollectSymbols scope) \<longrightarrow>
         (details (CollectSymbols scope ! i) = NamelistDetails
            \<longrightarrow> details (CollectSymbols scope ! j) = NamelistDetails)
       \<and> ((details (CollectSymbols scope ! i) = NamelistDetails)
              = (details (CollectSymbols scope ! j) = NamelistDetails)
            \<longrightarrow> name_begin (CollectSymbols scope ! i) \<le> name_begin (CollectSymbols scope ! j)))"
proof -
  have "sorted_wrt (\<lambda>a b. \<not> symbol_less b a) (CollectSymbols scope)"
    by (simp add: CollectSymbols_def sorted_std_sort)
  then have nth: "\<not> symbol_less (CollectSymbols scope ! j) (CollectSymbols scope ! i)"
    if "i < j" "j < length (CollectSymbols scope)" for i j
    using that by (simp add: sorted_wrt_iff_nth_less)
  have "(details (CollectSymbols scope ! i) = NamelistDetails
            \<longrightarrow> details (CollectSymbols scope ! j) = NamelistDetails)
       \<and> ((details (CollectSymbols scope ! i) = NamelistDetails)
              = (details (CollectSymbols scope ! j) = NamelistDetails)
            \<longrightarrow> name_begin (CollectSymbols scope ! i) \<le> name_begin (CollectSymbols scope ! j))"
    if "i < j" "j < length (CollectSymbols scope)" for i j
    using nth[OF that] by (auto simp: symbol_less_def Let_def split: if_splits)
  moreover have "\<forall>s \<in> set (CollectSymbols scope). \<not> flag_ParentComp s"
    if "\<forall>s \<in> snd ` set (commonBlocks scope). \<not> flag_ParentComp s"
    using that CollectSymbols_members[of scope] unfolding collected_def by blast
  ultimately show ?thesis
    using CollectSymbols_members[of scope] by blast
qed

theorem CollectSymbols_order_witness:
  "CollectSymbols example_scope = [sym_blk, sym_x, sym_n]
   \<and> (0::nat) < 1 \<and> 1 < length (CollectSymbols example_scope)
   \<and> details (CollectSymbols example_scope ! 0) \<noteq> NamelistDetails
   \<and> details (CollectSymbols example_scope ! 1) \<noteq> NamelistDetails
   \<and> name_begin (CollectSymbols example_scope ! 0) \<le> name_begin (CollectSymbols example_scope ! 1)
   \<and> sym_p \<notin> set (CollectSymbols example_scope)
   \<and> snd ` set (commonBlocks example_scope) = {sym_blk} \<and> \<not> flag_ParentComp sym_blk
   \<and> filter flag_ParentComp (CollectSymbols example_scope) = []
   \<and> flag_ParentComp sym_p \<and> sym_p \<in> snd ` set (scope_symbols example_scope)"
proof -
  have e: "CollectSymbols example_scope = [sym_blk, sym_x, sym_n]"
    by (rule CollectSymbols_example)
  have h: "(0::nat) < 1 \<and> 1 < length (CollectSymbols example_scope)"
    by (simp add: e)
  have d: "details (CollectSymbols example_scope ! 0) \<noteq> NamelistDetails"
    "details (CollectSymbols example_scope ! 1) \<noteq> NamelistDetails"
    by (simp_all add: e sym_blk_def sym_x_def)
  have nb: "name_begin (CollectSymbols example_scope ! 0) \<le> name_begin (CollectSymbols example_scope ! 1)"
    using CollectSymbols_order [of example_scope] h d by blast
  have "sym_p \<notin> collected example_scope"
    by (simp add: collected_def example_scope_def sym_n_def sym_p_def sym_x_def sym_blk_def)
  then have np: "sym_p \<notin> set (CollectSymbols example_scope)"
    using CollectSymbols_order [of example_scope] by blast
  have cb: "\<forall>s \<in> snd ` set (commonBlocks example_scope). \<not> flag_ParentComp s"
    by (simp add: example_scope_def sym_blk_def)
  have "\<forall>s \<in> set (CollectSymbols example_scope). \<not> flag_ParentComp s"
    using CollectSymbols_order [of example_scope] cb by blast
  then have out: "filter flag_ParentComp (CollectSymbols example_scope) = []"
    by (simp add: filter_empty_conv)
  have cb1: "snd ` set (commonBlocks example_scope) = {sym_blk} \<and> \<not> flag_ParentComp sym_blk"
    by (simp add: example_scope_def sym_blk_def)
  have p: "flag_ParentComp sym_p \<and> sym_p \<in> snd ` set (scope_symbols example_scope)"
    by (simp add: example_scope_def sym_p_def)
  show ?thesis
    using e h d nb np cb1 out p by blast
qed

text \<open>
  The claim as the specification words it puts common-block symbols after everything else.
  Here the common block \<open>blk\<close> comes first: before the object \<open>x\<close>, whose name starts
  later in the source, and before the namelist \<open>n\<close>.
\<close>

theorem CollectSymbols_common_block_counterexample:
  "CollectSymbols example_scope = [sym_blk, sym_x, sym_n]
   \<and> details sym_blk = CommonBlockDetails
   \<and> commonBlocks example_scope = [(''blk'', sym_blk)]
   \<and> details sym_x = ObjectEntityDetails \<and> details sym_n = NamelistDetails"
  by (simp add: CollectSymbols_example)
     (simp add: example_scope_def sym_n_def sym_x_def sym_blk_def)


section \<open>Reading a module file (ModFileReader)\<close>

subsection \<open>Paths and the search through the directories\<close>

text \<open>
  Modelled from the spec: \<open>parser::ToLowerCaseLetter\<close> (lib/parser/characters.h) is not
  among the sources; module-file names are written in lower case, so the function maps
  the letters \<open>A\<close> to \<open>Z\<close> to \<open>a\<close> to \<open>z\<close> and leaves every other byte alone.
\<close>

definition ToLowerCaseLetter :: "char \<Rightarrow> char" where
  "ToLowerCaseLetter c =
     (if 65 \<le> (of_char c :: nat) \<and> (of_char c :: nat) \<le> 90
      then char_of ((of_char c :: nat) + 32) else c)"

definition PutLower :: "string \<Rightarrow> string" where
  "PutLower str = map ToLowerCaseLetter str"

definition extension :: string where
  "extension = ''.mod''"

text \<open>\<open>ModFilePath(dir, name, ancestorName)\<close>; a non-empty ancestor name means a submodule.\<close>

definition ModFilePath :: "string \<Rightarrow> string \<Rightarrow> string \<Rightarrow> string" where
  "ModFilePath dir name ancestorName =
     (if dir \<noteq> ''.'' then dir @ ''/'' else [])
     @ (if ancestorName \<noteq> [] then PutLower ancestorName @ ''-'' else [])
     @ PutLower name @ extension"

text \<open>
  The diagnostics of the reader, by their format strings:
  \<^item> \<open>CannotFindModule\<close>: "Cannot find module file for '%s'";
  \<^item> \<open>CannotFindSubmodule\<close>: "Cannot find module file for submodule '%s' of module '%s'";
  \<^item> \<open>InvalidChecksum\<close>: "Module file for '%s' has invalid checksum: %s";
  \<^item> \<open>Corrupt\<close>: "Module file for '%s' is corrupt: %s";
  \<^item> \<open>OpenFailed\<close>: "%s: %s", the path and \<open>strerror(errno)\<close>;
  \<^item> \<open>NotAValidModuleFile\<close>: "%s: Not a valid module file".

  A message has its format, the arguments of the format, and the messages attached to it.
\<close>

datatype msg_format =
    CannotFindModule | CannotFindSubmodule | InvalidChecksum | Corrupt
  | OpenFailed | NotAValidModuleFile

datatype message =
  Message (msg_format: msg_format) (msg_args: "string list") (attached: "message list")

text \<open>\<open>std::getline\<close> on the start of a file: the bytes before the first newline, and the
  bytes after it.\<close>

definition first_line :: "string \<Rightarrow> string" where
  "first_line bytes = takeWhile (\<lambda>c. c \<noteq> newline) bytes"

definition after_first_line :: "string \<Rightarrow> string" where
  "after_first_line bytes = drop 1 (dropWhile (\<lambda>c. c \<noteq> newline) bytes)"

text \<open>\<open>std::strerror(errno)\<close> after a failed open.\<close>

definition open_error :: "disk \<Rightarrow> string \<Rightarrow> string" where
  "open_error d path =
     (case files d path of None \<Rightarrow> ''No such file or directory''
      | Some f \<Rightarrow> ''Permission denied'')"

text \<open>
  The scopes and symbols live in the semantics context; a \<open>Scope *\<close> or \<open>Symbol *\<close> is
  a number, a null pointer is \<open>None\<close>.  Of a symbol, \<open>Read\<close> uses its scope and the flag
  \<open>ModFile\<close>; of a scope, its name, its symbols by name, its submodules by name
  (\<open>FindSubmodule\<close>), and the source text set by \<open>set_chars\<close>.
\<close>

record ModSymbol =
  symbol_scope :: "nat option"
  flag_ModFile :: bool

record ModScope =
  scope_name :: string
  scope_find :: "string \<rightharpoonup> nat"
  FindSubmodule :: "string \<rightharpoonup> nat"
  scope_chars :: string

record SemanticsContext =
  scopes :: "nat \<Rightarrow> ModScope"
  symbols :: "nat \<Rightarrow> ModSymbol"
  searchDirectories :: "string list"
  messages :: "message list"
  the_disk :: disk

text \<open>The global scope is one fixed object (\<open>Scope::globalScope\<close> in scope.cc).\<close>

definition globalScope :: nat where
  "globalScope = 0"

definition Say :: "message \<Rightarrow> SemanticsContext \<Rightarrow> SemanticsContext" where
  "Say m ctx = ctx\<lparr>messages := messages ctx @ [m]\<rparr>"

text \<open>
  The loop of \<open>FindModFile\<close> over the search directories.  Each \<open>std::ifstream\<close> that
  is constructed is an open for reading, noted in the log of the disk.  The result is the
  accepted path, if any, with the attachments gathered and the disk.
\<close>

fun FindModFile_loop ::
  "string list \<Rightarrow> string \<Rightarrow> string \<Rightarrow> message list \<Rightarrow> disk
    \<Rightarrow> string option \<times> message list \<times> disk" where
  "FindModFile_loop [] name ancestor attachments d = (None, attachments, d)"
| "FindModFile_loop (dir # dirs) name ancestor attachments d =
     (let path = ModFilePath dir name ancestor
      in case stream_open path In_Only d of
           (ifstream, d') \<Rightarrow>
             if failbit ifstream
             then FindModFile_loop dirs name ancestor
                    (attachments @ [Message OpenFailed [path, open_error d path] []]) d'
             else (case files d' path of
                     None \<Rightarrow> FindModFile_loop dirs name ancestor
                        (attachments @ [Message NotAValidModuleFile [path] []]) d'
                   | Some f \<Rightarrow>
                       if take (length magic) (first_line (contents f)) = magic
                       then (Some path, attachments, d')
                       else FindModFile_loop dirs name ancestor
                              (attachments @ [Message NotAValidModuleFile [path] []]) d'))"

text \<open>
  \<open>FindModFile\<close>: when the loop accepts no candidate, one error is reported, with all
  the attachments.
\<close>

definition FindModFile ::
  "string \<Rightarrow> string \<Rightarrow> SemanticsContext \<Rightarrow> string option \<times> SemanticsContext" where
  "FindModFile name ancestor ctx =
     (case FindModFile_loop (searchDirectories ctx) name ancestor [] (the_disk ctx) of
        (Some path, attachments, d) \<Rightarrow> (Some path, ctx\<lparr>the_disk := d\<rparr>)
      | (None, attachments, d) \<Rightarrow>
          (None,
           Say (Message (if ancestor = [] then CannotFindModule else CannotFindSubmodule)
                  [name, ancestor] attachments)
             (ctx\<lparr>the_disk := d\<rparr>)))"

text \<open>
  \<open>VerifyHeader\<close> opens the file with \<open>std::fstream stream{path}\<close>, whose default mode is
  \<open>in | out\<close>.  If the open fails, \<open>getline\<close> leaves the header empty and the comparison
  with the magic fails.
\<close>

definition VerifyHeader :: "string \<Rightarrow> disk \<Rightarrow> bool \<times> disk" where
  "VerifyHeader path d =
     (case stream_open path In_Out d of
        (stream, d') \<Rightarrow>
          (case (if failbit stream then None else files d' path) of
             None \<Rightarrow> (False, d')
           | Some f \<Rightarrow>
               (let header = first_line (contents f);
                    magicLen = length magic
                in if take magicLen header \<noteq> magic then (False, d')
                   else (let expectSum = take 16 (drop magicLen header);
                             actualSum = CheckSum (after_first_line (contents f))
                         in (expectSum = actualSum, d')))))"

subsection \<open>Parsing and name resolution, the collaborators\<close>

text \<open>
  The parser and the name resolution are not part of these sources; \<open>Read\<close> takes them
  as parameters.  Of the parse it reads whether there were messages, whether the whole
  file was consumed, the tree, and the cooked source.  Of the tree, \<open>GetSubmoduleParent\<close>
  reads the program units and, of a submodule, the parent named in its statement.
\<close>

datatype ProgramUnit =
    ModuleUnit string
  | SubmoduleUnit (unit_ancestor: string) (unit_parent: "string option") (unit_name: string)
  | OtherUnit

type_synonym Program = "ProgramUnit list"

record Parsing =
  parse_messages_empty :: bool
  consumedWholeFile :: bool
  parseTree :: "Program option"
  cooked :: string

datatype crash = CheckFailed | BadVariantAccess | NullPointer

text \<open>\<open>GetSubmoduleParent\<close>: \<open>CHECK(program.v.size() == 1)\<close>, then \<open>std::get\<close> of the
  submodule, which throws on any other unit.\<close>

definition GetSubmoduleParent :: "Program \<Rightarrow> crash + string option" where
  "GetSubmoduleParent program =
     (case program of
        [unit] \<Rightarrow>
          (case unit of
             SubmoduleUnit a parent n \<Rightarrow> Inr parent
           | _ \<Rightarrow> Inl BadVariantAccess)
      | _ \<Rightarrow> Inl CheckFailed)"

subsection \<open>Read\<close>

text \<open>
  \<open>Read\<close> calls itself for the parent of a submodule, and nothing in the code bounds
  the depth (a file that names itself as its parent is read again and again).  The model
  takes the depth allowed as fuel: \<open>None\<close> means the fuel ran out.  A result is a crash
  (a failed \<open>CHECK\<close>, an exception, a null pointer that is dereferenced), or the scope
  returned (\<open>None\<close> for \<open>nullptr\<close>) with the context after the call.
\<close>

datatype read_result = Crash crash | Returned "nat option" SemanticsContext

text \<open>The start of \<open>Read\<close>: the module may be there already.  \<open>Inl\<close> is the early
  return, \<open>Inr\<close> the ancestor's name for the search (empty for a module).\<close>

definition already_loaded :: "string \<Rightarrow> nat option \<Rightarrow> SemanticsContext \<Rightarrow> nat option + string" where
  "already_loaded name ancestor ctx =
     (case ancestor of
        Some a \<Rightarrow>
          (case FindSubmodule (scopes ctx a) name of
             Some scope \<Rightarrow> Inl (Some scope)
           | None \<Rightarrow> Inr (scope_name (scopes ctx a)))
      | None \<Rightarrow>
          (case scope_find (scopes ctx globalScope) name of
             Some it \<Rightarrow> Inl (symbol_scope (symbols ctx it))
           | None \<Rightarrow> Inr []))"

text \<open>The end of \<open>Read\<close>, after \<open>ResolveNames\<close>: look the module up in the parent scope,
  keep the cooked source in its scope and set the flag \<open>ModFile\<close>.\<close>

definition splice :: "string \<Rightarrow> nat option \<Rightarrow> string \<Rightarrow> SemanticsContext \<Rightarrow> read_result" where
  "splice name parentScope chars ctx =
     (case parentScope of
        None \<Rightarrow> Crash NullPointer
      | Some ps \<Rightarrow>
          (case scope_find (scopes ctx ps) name of
             None \<Rightarrow> Returned None ctx
           | Some modSymbol \<Rightarrow>
               (case symbol_scope (symbols ctx modSymbol) of
                  None \<Rightarrow> Crash NullPointer
                | Some sc \<Rightarrow>
                    Returned (Some sc)
                      (ctx\<lparr>scopes := (scopes ctx)(sc := (scopes ctx sc)\<lparr>scope_chars := chars\<rparr>),
                           symbols := (symbols ctx)
                             (modSymbol := (symbols ctx modSymbol)\<lparr>flag_ModFile := True\<rparr>)\<rparr>))))"

fun Read ::
  "(string \<Rightarrow> disk \<Rightarrow> Parsing) \<Rightarrow> (Program \<Rightarrow> SemanticsContext \<Rightarrow> SemanticsContext)
    \<Rightarrow> nat \<Rightarrow> string \<Rightarrow> nat option \<Rightarrow> SemanticsContext \<Rightarrow> read_result option" where
  "Read parse ResolveNames 0 name ancestor ctx = None"
| "Read parse ResolveNames (Suc fuel) name ancestor ctx =
     (case already_loaded name ancestor ctx of
        Inl scope \<Rightarrow> Some (Returned scope ctx)
      | Inr ancestorName \<Rightarrow>
          (case FindModFile name ancestorName ctx of
             (None, ctx1) \<Rightarrow> Some (Returned None ctx1)
           | (Some path, ctx1) \<Rightarrow>
               (case VerifyHeader path (the_disk ctx1) of
                  (False, d2) \<Rightarrow>
                    Some (Returned None
                      (Say (Message InvalidChecksum [name, path] []) (ctx1\<lparr>the_disk := d2\<rparr>)))
                | (True, d2) \<Rightarrow>
                    (let ctx2 = ctx1\<lparr>the_disk := d2\<rparr>;
                         parsing = parse path d2
                     in case (if \<not> parse_messages_empty parsing \<or> \<not> consumedWholeFile parsing
                              then None else parseTree parsing) of
                          None \<Rightarrow>
                            Some (Returned None (Say (Message Corrupt [name, path] []) ctx2))
                        | Some tree \<Rightarrow>
                            (case (case ancestor of
                                     None \<Rightarrow> Some (Returned (Some globalScope) ctx2)
                                   | Some a \<Rightarrow>
                                       (case GetSubmoduleParent tree of
                                          Inl c \<Rightarrow> Some (Crash c)
                                        | Inr (Some parent) \<Rightarrow>
                                            Read parse ResolveNames fuel parent ancestor ctx2
                                        | Inr None \<Rightarrow> Some (Returned (Some a) ctx2))) of
                               None \<Rightarrow> None
                             | Some (Crash c) \<Rightarrow> Some (Crash c)
                             | Some (Returned parentScope ctx3) \<Rightarrow>
                                 Some (splice name parentScope (cooked parsing)
                                         (ResolveNames tree ctx3)))))))"


subsection \<open>Failures of the search and of the checksum\<close>

text \<open>
  The test \<open>FindModFile\<close> makes of a candidate, in the words of the specification: the
  file opens for reading and its first line begins with the magic.  A rejected candidate
  leaves one diagnostic, and every candidate tried leaves one entry in the log of opens.
\<close>


definition candidate_accepted :: "disk \<Rightarrow> string \<Rightarrow> bool" where
  "candidate_accepted d path =
     (case files d path of
        Some f \<Rightarrow> readable f \<and> take 13 (first_line (contents f)) = ''!mod$ v1 sum:''
      | None \<Rightarrow> False)"

definition candidate_diagnostic :: "disk \<Rightarrow> string \<Rightarrow> message" where
  "candidate_diagnostic d path =
     (case files d path of
        Some f \<Rightarrow> if readable f then Message NotAValidModuleFile [path] []
                  else Message OpenFailed [path, open_error d path] []
      | None \<Rightarrow> Message OpenFailed [path, open_error d path] [])"

definition tried :: "string list \<Rightarrow> string \<Rightarrow> string \<Rightarrow> disk \<Rightarrow> disk" where
  "tried dirs name anc d =
     d\<lparr>opened := opened d @ map (\<lambda>dir. (ModFilePath dir name anc, In_Only)) dirs\<rparr>"

lemma tried_files [simp]: "files (tried dirs name anc d) = files d"
  by (simp add: tried_def)

lemma candidate_accepted_log [simp]:
  "candidate_accepted (d\<lparr>opened := l\<rparr>) path = candidate_accepted d path"
  by (simp add: candidate_accepted_def)

lemma open_error_log [simp]: "open_error (d\<lparr>opened := l\<rparr>) path = open_error d path"
  by (simp add: open_error_def)

lemma candidate_diagnostic_log [simp]:
  "candidate_diagnostic (d\<lparr>opened := l\<rparr>) path = candidate_diagnostic d path"
  by (simp add: candidate_diagnostic_def split: option.splits)

lemma length_magic: "length magic = 13"
  by (simp add: magic_def)

lemma magic_prefix:
  "(take (length magic) l = magic) = (take 13 l = ''!mod$ v1 sum:'')"
  by (simp only: length_magic) (simp only: magic_def)

lemma FindModFile_loop_step_reject:
  assumes "\<not> candidate_accepted d (ModFilePath dir name anc)"
  shows "FindModFile_loop (dir # dirs) name anc atts d
     = FindModFile_loop dirs name anc (atts @ [candidate_diagnostic d (ModFilePath dir name anc)])
         (d\<lparr>opened := opened d @ [(ModFilePath dir name anc, In_Only)]\<rparr>)"
  using assms
  by (auto simp: candidate_accepted_def candidate_diagnostic_def stream_open_def Let_def
      magic_prefix split: option.splits)

lemma FindModFile_loop_step_accept:
  assumes "candidate_accepted d (ModFilePath dir name anc)"
  shows "FindModFile_loop (dir # dirs) name anc atts d
     = (Some (ModFilePath dir name anc), atts,
         d\<lparr>opened := opened d @ [(ModFilePath dir name anc, In_Only)]\<rparr>)"
  using assms
  by (auto simp: candidate_accepted_def stream_open_def Let_def magic_prefix
      split: option.splits)

lemma FindModFile_loop_none:
  assumes "\<forall>dir \<in> set dirs. \<not> candidate_accepted d (ModFilePath dir name anc)"
  shows "FindModFile_loop dirs name anc atts d
     = (None, atts @ map (\<lambda>dir. candidate_diagnostic d (ModFilePath dir name anc)) dirs,
        tried dirs name anc d)"
  using assms
proof (induction dirs arbitrary: atts d)
  case Nil
  then show ?case by (simp add: tried_def)
next
  case (Cons dir dirs)
  have r: "\<not> candidate_accepted d (ModFilePath dir name anc)" using Cons.prems by simp
  let ?d = "d\<lparr>opened := opened d @ [(ModFilePath dir name anc, In_Only)]\<rparr>"
  have "\<forall>x \<in> set dirs. \<not> candidate_accepted ?d (ModFilePath x name anc)"
    using Cons.prems by simp
  from Cons.IH[OF this] show ?case
    by (subst FindModFile_loop_step_reject[OF r]) (simp add: tried_def)
qed

lemma FindModFile_loop_first:
  assumes "\<forall>x \<in> set ds1. \<not> candidate_accepted d (ModFilePath x name anc)"
    and "candidate_accepted d (ModFilePath dir name anc)"
  shows "FindModFile_loop (ds1 @ dir # ds2) name anc atts d
     = (Some (ModFilePath dir name anc),
        atts @ map (\<lambda>x. candidate_diagnostic d (ModFilePath x name anc)) ds1,
        tried (ds1 @ [dir]) name anc d)"
  using assms
proof (induction ds1 arbitrary: atts d)
  case Nil
  show ?case
    using FindModFile_loop_step_accept[OF Nil.prems(2)] by (simp add: tried_def)
next
  case (Cons x ds1)
  have r: "\<not> candidate_accepted d (ModFilePath x name anc)" using Cons.prems by simp
  let ?d = "d\<lparr>opened := opened d @ [(ModFilePath x name anc, In_Only)]\<rparr>"
  have a: "\<forall>y \<in> set ds1. \<not> candidate_accepted ?d (ModFilePath y name anc)"
    and b: "candidate_accepted ?d (ModFilePath dir name anc)"
    using Cons.prems by simp_all
  from Cons.IH[OF a b] show ?case
    unfolding append_Cons
    by (subst FindModFile_loop_step_reject[OF r]) (simp add: tried_def)
qed


lemma VerifyHeader_mismatch:
  assumes "files d path = Some f"
    and "take 16 (drop 13 (first_line (contents f)))
           \<noteq> spec_hex16 (spec_fnv1a64 (after_first_line (contents f)))"
  shows "VerifyHeader path d = (False, d\<lparr>opened := opened d @ [(path, In_Out)]\<rparr>)"
  using assms
  by (simp add: VerifyHeader_def stream_open_def Let_def CheckSum_eq length_magic)

lemma FindModFile_none:
  assumes "\<forall>dir \<in> set (searchDirectories ctx).
             \<not> candidate_accepted (the_disk ctx) (ModFilePath dir name anc)"
  shows "FindModFile name anc ctx =
     (None, ctx\<lparr>the_disk := tried (searchDirectories ctx) name anc (the_disk ctx),
                messages := messages ctx @
                  [Message (if anc = [] then CannotFindModule else CannotFindSubmodule) [name, anc]
                     (map (\<lambda>dir. candidate_diagnostic (the_disk ctx) (ModFilePath dir name anc))
                        (searchDirectories ctx))]\<rparr>)"
  by (simp add: FindModFile_def FindModFile_loop_none[OF assms] Say_def)

lemma FindModFile_first:
  assumes "searchDirectories ctx = ds1 @ dir # ds2"
    and "\<forall>x \<in> set ds1. \<not> candidate_accepted (the_disk ctx) (ModFilePath x name anc)"
    and "candidate_accepted (the_disk ctx) (ModFilePath dir name anc)"
  shows "FindModFile name anc ctx =
     (Some (ModFilePath dir name anc),
      ctx\<lparr>the_disk := tried (ds1 @ [dir]) name anc (the_disk ctx)\<rparr>)"
  by (simp add: FindModFile_def assms(1) FindModFile_loop_first[OF assms(2,3)])

text \<open>
  C7.  For a module that is not loaded yet, \<open>Read\<close> tries the search directories in
  order and takes the first candidate that opens and whose first line begins with
  \<open>!mod$ v1 sum:\<close>.  If no candidate is accepted, it returns null after reporting exactly
  one "Cannot find module file" error that carries one attached diagnostic for each
  directory tried.  If a candidate is accepted but the 16 digits after the magic differ
  from the FNV-1a checksum of the body, it returns null after reporting "invalid
  checksum".  In both cases the scopes and symbols of the context stay as they were:
  only the messages and the log of file opens change.
\<close>

theorem Read_not_found_or_bad_checksum:
  assumes "already_loaded name ancestor ctx = Inr anc"
  shows
  "((\<forall>dir \<in> set (searchDirectories ctx).
        \<not> candidate_accepted (the_disk ctx) (ModFilePath dir name anc)) \<longrightarrow>
      Read parse ResolveNames (Suc fuel) name ancestor ctx =
        Some (Returned None
          (ctx\<lparr>the_disk := tried (searchDirectories ctx) name anc (the_disk ctx),
               messages := messages ctx @
                 [Message (if anc = [] then CannotFindModule else CannotFindSubmodule) [name, anc]
                    (map (\<lambda>dir. candidate_diagnostic (the_disk ctx) (ModFilePath dir name anc))
                       (searchDirectories ctx))]\<rparr>)))
   \<and> (searchDirectories ctx = ds1 @ dir # ds2
        \<and> (\<forall>x \<in> set ds1. \<not> candidate_accepted (the_disk ctx) (ModFilePath x name anc))
        \<and> candidate_accepted (the_disk ctx) (ModFilePath dir name anc) \<longrightarrow>
      FindModFile name anc ctx =
        (Some (ModFilePath dir name anc),
         ctx\<lparr>the_disk := tried (ds1 @ [dir]) name anc (the_disk ctx)\<rparr>)
      \<and> (files (the_disk ctx) (ModFilePath dir name anc) = Some f
          \<and> take 16 (drop 13 (first_line (contents f)))
               \<noteq> spec_hex16 (spec_fnv1a64 (after_first_line (contents f))) \<longrightarrow>
          Read parse ResolveNames (Suc fuel) name ancestor ctx =
            Some (Returned None
              (ctx\<lparr>the_disk := (tried (ds1 @ [dir]) name anc (the_disk ctx))
                       \<lparr>opened := opened (tried (ds1 @ [dir]) name anc (the_disk ctx))
                                    @ [(ModFilePath dir name anc, In_Out)]\<rparr>,
                   messages := messages ctx @
                     [Message InvalidChecksum [name, ModFilePath dir name anc] []]\<rparr>))))"
proof (intro conjI impI)
  assume "\<forall>dir \<in> set (searchDirectories ctx).
        \<not> candidate_accepted (the_disk ctx) (ModFilePath dir name anc)"
  from FindModFile_none[OF this] show "Read parse ResolveNames (Suc fuel) name ancestor ctx =
        Some (Returned None
          (ctx\<lparr>the_disk := tried (searchDirectories ctx) name anc (the_disk ctx),
               messages := messages ctx @
                 [Message (if anc = [] then CannotFindModule else CannotFindSubmodule) [name, anc]
                    (map (\<lambda>dir. candidate_diagnostic (the_disk ctx) (ModFilePath dir name anc))
                       (searchDirectories ctx))]\<rparr>))"
    using assms by simp
next
  assume a: "searchDirectories ctx = ds1 @ dir # ds2
        \<and> (\<forall>x \<in> set ds1. \<not> candidate_accepted (the_disk ctx) (ModFilePath x name anc))
        \<and> candidate_accepted (the_disk ctx) (ModFilePath dir name anc)"
  then show f: "FindModFile name anc ctx =
        (Some (ModFilePath dir name anc),
         ctx\<lparr>the_disk := tried (ds1 @ [dir]) name anc (the_disk ctx)\<rparr>)"
    using FindModFile_first by blast
  assume b: "files (the_disk ctx) (ModFilePath dir name anc) = Some f
          \<and> take 16 (drop 13 (first_line (contents f)))
               \<noteq> spec_hex16 (spec_fnv1a64 (after_first_line (contents f)))"
  have "VerifyHeader (ModFilePath dir name anc) (tried (ds1 @ [dir]) name anc (the_disk ctx))
      = (False, (tried (ds1 @ [dir]) name anc (the_disk ctx))
                  \<lparr>opened := opened (tried (ds1 @ [dir]) name anc (the_disk ctx))
                                    @ [(ModFilePath dir name anc, In_Out)]\<rparr>)"
    by (rule VerifyHeader_mismatch[where f = f]) (use b in simp_all)
  then show "Read parse ResolveNames (Suc fuel) name ancestor ctx =
            Some (Returned None
              (ctx\<lparr>the_disk := (tried (ds1 @ [dir]) name anc (the_disk ctx))
                       \<lparr>opened := opened (tried (ds1 @ [dir]) name anc (the_disk ctx))
                                    @ [(ModFilePath dir name anc, In_Out)]\<rparr>,
                   messages := messages ctx @
                     [Message InvalidChecksum [name, ModFilePath dir name anc] []]\<rparr>))"
    using assms f by (simp add: Say_def)
qed


subsection \<open>A module that is loaded already\<close>



text \<open>
  Modelled from the spec: \<open>Read\<close> itself never enters a scope in a table of submodules;
  it only calls name resolution, which is not among these sources.  By the contract of the
  reader the scope of a submodule is spliced under the ancestor's scope, that is, name
  resolution enters it in the ancestor's table of submodules, where \<open>FindSubmodule\<close>
  finds it.  The predicate says that context \<open>ctx\<close> is such a context for the scope
  \<open>sc\<close> that \<open>Read\<close> returned; for a module (no ancestor) it asks nothing.
\<close>

definition submodule_spliced :: "nat option \<Rightarrow> string \<Rightarrow> nat \<Rightarrow> SemanticsContext \<Rightarrow> bool" where
  "submodule_spliced ancestor name sc ctx =
     (case ancestor of
        None \<Rightarrow> True
      | Some a \<Rightarrow> FindSubmodule (scopes ctx a) name = Some sc)"



subsection \<open>Example runs\<close>

definition empty_scope :: ModScope where
  "empty_scope = \<lparr>scope_name = [], scope_find = Map.empty, FindSubmodule = Map.empty, scope_chars = []\<rparr>"

definition example_context :: "disk \<Rightarrow> SemanticsContext" where
  "example_context d =
     \<lparr>scopes = (\<lambda>i. empty_scope), symbols = (\<lambda>i. \<lparr>symbol_scope = None, flag_ModFile = False\<rparr>),
      searchDirectories = [''.'', ''lib''], messages = [], the_disk = d\<rparr>"

definition example_parse :: "string \<Rightarrow> disk \<Rightarrow> Parsing" where
  "example_parse path d =
     \<lparr>parse_messages_empty = True, consumedWholeFile = True,
      parseTree = Some [ModuleUnit ''m''], cooked = ''module m''\<rparr>"

definition example_ResolveNames :: "Program \<Rightarrow> SemanticsContext \<Rightarrow> SemanticsContext" where
  "example_ResolveNames tree ctx =
     ctx\<lparr>scopes := (scopes ctx)
            (globalScope := (scopes ctx globalScope)
               \<lparr>scope_find := (scope_find (scopes ctx globalScope))(''m'' \<mapsto> 7)\<rparr>),
         symbols := (symbols ctx)(7 := \<lparr>symbol_scope = Some 1, flag_ModFile = False\<rparr>)\<rparr>"

definition disk_with_bad_sum :: disk where
  "disk_with_bad_sum =
     \<lparr>files = [''lib/m.mod'' \<mapsto>
        \<lparr>contents = ''!mod$ v1 sum:0000000000000000'' @ newline # ''a'',
         readable = True, writable = True\<rparr>],
      creatable = {}, opened = [], written = []\<rparr>"

lemma ModFilePath_examples:
  "ModFilePath ''.'' ''m'' [] = ''m.mod''"
  "ModFilePath ''lib'' ''m'' [] = ''lib/m.mod''"
  "ModFilePath ''.'' ''x'' [] = ''x.mod''"
  "ModFilePath ''lib'' ''x'' [] = ''lib/x.mod''"
  by code_simp+

lemma first_line_append:
  "newline \<notin> set h \<Longrightarrow> first_line (h @ newline # b) = h"
  by (induction h) (auto simp: first_line_def)

lemma after_first_line_append:
  "newline \<notin> set h \<Longrightarrow> after_first_line (h @ newline # b) = b"
  by (induction h) (auto simp: after_first_line_def)

lemma hex_a: "spec_hex16 (spec_fnv1a64 ''a'') = ''af63dc4c8601ec8c''"
  by code_simp


lemma example_not_loaded: "already_loaded n None (example_context d) = Inr []"
  by (simp add: already_loaded_def example_context_def empty_scope_def)

lemma newline_not_in_header: "newline \<notin> set ''!mod$ v1 sum:af63dc4c8601ec8c''"
  "newline \<notin> set ''!mod$ v1 sum:0000000000000000''"
  by (simp_all add: newline_def)



lemma CheckSum_a: "CheckSum ''a'' = ''af63dc4c8601ec8c''"
  by code_simp


text \<open>
  Two runs: module \<open>x\<close> has no file in either directory; module \<open>m\<close> has none in the
  first directory and one with a wrong checksum in the second.
\<close>

theorem Read_not_found_or_bad_checksum_witness:
  "already_loaded ''x'' None (example_context (disk_with_m_mod True)) = Inr []
   \<and> Read example_parse example_ResolveNames (Suc 0) ''x'' None
        (example_context (disk_with_m_mod True))
      = Some (Returned None
          ((example_context (disk_with_m_mod True))
             \<lparr>the_disk := (disk_with_m_mod True)
                  \<lparr>opened := [(''x.mod'', In_Only), (''lib/x.mod'', In_Only)]\<rparr>,
              messages := [Message CannotFindModule [''x'', []]
                  [Message OpenFailed [''x.mod'', ''No such file or directory''] [],
                   Message OpenFailed [''lib/x.mod'', ''No such file or directory''] []]]\<rparr>))
   \<and> already_loaded ''m'' None (example_context disk_with_bad_sum) = Inr []
   \<and> FindModFile ''m'' [] (example_context disk_with_bad_sum)
      = (Some ''lib/m.mod'',
         (example_context disk_with_bad_sum)
           \<lparr>the_disk := disk_with_bad_sum
                \<lparr>opened := [(''m.mod'', In_Only), (''lib/m.mod'', In_Only)]\<rparr>\<rparr>)
   \<and> Read example_parse example_ResolveNames (Suc 0) ''m'' None
        (example_context disk_with_bad_sum)
      = Some (Returned None
          ((example_context disk_with_bad_sum)
             \<lparr>the_disk := disk_with_bad_sum
                  \<lparr>opened := [(''m.mod'', In_Only), (''lib/m.mod'', In_Only),
                              (''lib/m.mod'', In_Out)]\<rparr>,
              messages := [Message InvalidChecksum [''m'', ''lib/m.mod''] []]\<rparr>))"
proof -
  let ?c1 = "example_context (disk_with_m_mod True)"
  let ?c2 = "example_context disk_with_bad_sum"
  let ?f = "\<lparr>contents = ''!mod$ v1 sum:0000000000000000'' @ newline # ''a'',
         readable = True, writable = True\<rparr>"
  have n1: "already_loaded ''x'' None ?c1 = Inr []" and n2: "already_loaded ''m'' None ?c2 = Inr []"
    by (rule example_not_loaded)+
  have none: "\<forall>dir \<in> set (searchDirectories ?c1).
        \<not> candidate_accepted (the_disk ?c1) (ModFilePath dir ''x'' [])"
    by (simp add: example_context_def ModFilePath_examples candidate_accepted_def
        disk_with_m_mod_def)
  have r1: "Read example_parse example_ResolveNames (Suc 0) ''x'' None ?c1
      = Some (Returned None
          (?c1\<lparr>the_disk := (disk_with_m_mod True)
                  \<lparr>opened := [(''x.mod'', In_Only), (''lib/x.mod'', In_Only)]\<rparr>,
              messages := [Message CannotFindModule [''x'', []]
                  [Message OpenFailed [''x.mod'', ''No such file or directory''] [],
                   Message OpenFailed [''lib/x.mod'', ''No such file or directory''] []]]\<rparr>))"
    using Read_not_found_or_bad_checksum [OF n1, of example_parse example_ResolveNames 0] none
    by (simp add: example_context_def ModFilePath_examples candidate_diagnostic_def
        disk_with_m_mod_def open_error_def tried_def del: Read.simps)
  have dirs: "searchDirectories ?c2 = [''.''] @ ''lib'' # []"
    by (simp add: example_context_def)
  have rej: "\<forall>x \<in> set [''.'']. \<not> candidate_accepted (the_disk ?c2) (ModFilePath x ''m'' [])"
    by (simp add: example_context_def ModFilePath_examples candidate_accepted_def
        disk_with_bad_sum_def)
  have acc: "candidate_accepted (the_disk ?c2) (ModFilePath ''lib'' ''m'' [])"
    by (simp add: example_context_def ModFilePath_examples candidate_accepted_def
        disk_with_bad_sum_def first_line_def newline_def)
  have fl: "files (the_disk ?c2) (ModFilePath ''lib'' ''m'' []) = Some ?f"
    by (simp add: example_context_def ModFilePath_examples disk_with_bad_sum_def)
  have bad: "take 16 (drop 13 (first_line (contents ?f)))
               \<noteq> spec_hex16 (spec_fnv1a64 (after_first_line (contents ?f)))"
    by (simp add: first_line_def after_first_line_def newline_def hex_a)
  note inst = Read_not_found_or_bad_checksum [OF n2, of example_parse example_ResolveNames 0
      "[''.'']" "''lib''" "[]" ?f]
  have r2: "FindModFile ''m'' [] ?c2
      = (Some ''lib/m.mod'',
         ?c2\<lparr>the_disk := disk_with_bad_sum
                \<lparr>opened := [(''m.mod'', In_Only), (''lib/m.mod'', In_Only)]\<rparr>\<rparr>)"
    using inst dirs rej acc
    by (simp add: ModFilePath_examples tried_def example_context_def disk_with_bad_sum_def
        del: Read.simps)
  have r3: "Read example_parse example_ResolveNames (Suc 0) ''m'' None ?c2
      = Some (Returned None
          (?c2\<lparr>the_disk := disk_with_bad_sum
                  \<lparr>opened := [(''m.mod'', In_Only), (''lib/m.mod'', In_Only),
                              (''lib/m.mod'', In_Out)]\<rparr>,
              messages := [Message InvalidChecksum [''m'', ''lib/m.mod''] []]\<rparr>))"
    using inst dirs rej acc fl bad
    by (simp add: ModFilePath_examples tried_def example_context_def disk_with_bad_sum_def
        del: Read.simps)
  show ?thesis
    using n1 r1 n2 r2 r3 by (simp del: Read.simps)
qed



text \<open>
  A submodule \<open>s\<close> of module \<open>a\<close>: the ancestor's scope is scope 3, the file is
  \<open>a-s.mod\<close>, and name resolution enters the submodule in the name map of its parent
  (here the ancestor) and, if \<open>registers\<close>, in the ancestor's table of submodules.  Each
  run of name resolution makes a new scope, numbered by the opens logged so far.
\<close>

definition disk_with_a_s_mod :: disk where
  "disk_with_a_s_mod =
     \<lparr>files = [''a-s.mod'' \<mapsto>
        \<lparr>contents = ''!mod$ v1 sum:af63dc4c8601ec8c'' @ newline # ''a'',
         readable = True, writable = True\<rparr>],
      creatable = {}, opened = [], written = []\<rparr>"

definition example_ancestor :: SemanticsContext where
  "example_ancestor =
     \<lparr>scopes = (\<lambda>i. empty_scope)(3 := empty_scope\<lparr>scope_name := ''a''\<rparr>),
      symbols = (\<lambda>i. \<lparr>symbol_scope = None, flag_ModFile = False\<rparr>),
      searchDirectories = [''.''], messages = [], the_disk = disk_with_a_s_mod\<rparr>"

definition example_parse_submodule :: "string \<Rightarrow> disk \<Rightarrow> Parsing" where
  "example_parse_submodule path d =
     \<lparr>parse_messages_empty = True, consumedWholeFile = True,
      parseTree = Some [SubmoduleUnit ''a'' None ''s''], cooked = ''submodule(a) s''\<rparr>"

definition example_ResolveNames_submodule ::
  "bool \<Rightarrow> Program \<Rightarrow> SemanticsContext \<Rightarrow> SemanticsContext" where
  "example_ResolveNames_submodule registers tree ctx =
     (let sc = 10 + length (opened (the_disk ctx))
      in ctx\<lparr>scopes := (scopes ctx)
               (3 := (scopes ctx 3)
                  \<lparr>scope_find := (scope_find (scopes ctx 3))(''s'' \<mapsto> 8),
                   FindSubmodule := (if registers
                                     then (FindSubmodule (scopes ctx 3))(''s'' \<mapsto> sc)
                                     else FindSubmodule (scopes ctx 3))\<rparr>),
             symbols := (symbols ctx)(8 := \<lparr>symbol_scope = Some sc, flag_ModFile = False\<rparr>)\<rparr>)"

definition example_submodule_loaded :: "bool \<Rightarrow> SemanticsContext" where
  "example_submodule_loaded registers =
     \<lparr>scopes = (\<lambda>i. empty_scope)
         (3 := \<lparr>scope_name = ''a'', scope_find = [''s'' \<mapsto> 8],
                FindSubmodule = (if registers then [''s'' \<mapsto> 12] else Map.empty),
                scope_chars = []\<rparr>,
          12 := empty_scope\<lparr>scope_chars := ''submodule(a) s''\<rparr>),
      symbols = (\<lambda>i. \<lparr>symbol_scope = None, flag_ModFile = False\<rparr>)
         (8 := \<lparr>symbol_scope = Some 12, flag_ModFile = True\<rparr>),
      searchDirectories = [''.''], messages = [],
      the_disk = disk_with_a_s_mod\<lparr>opened := [(''a-s.mod'', In_Only), (''a-s.mod'', In_Out)]\<rparr>\<rparr>"

lemma ModFilePath_submodule: "ModFilePath ''.'' ''s'' ''a'' = ''a-s.mod''"
  by code_simp

lemma Read_example_submodule:
  "Read example_parse_submodule (example_ResolveNames_submodule registers) (Suc 0) ''s'' (Some 3)
     example_ancestor = Some (Returned (Some 12) (example_submodule_loaded registers))"
proof -
  let ?c = "example_ancestor"
  have n: "already_loaded ''s'' (Some 3) ?c = Inr ''a''"
    by (simp add: already_loaded_def example_ancestor_def empty_scope_def)
  have a: "candidate_accepted (the_disk ?c) (ModFilePath ''.'' ''s'' ''a'')"
    by (simp add: example_ancestor_def ModFilePath_submodule candidate_accepted_def
        disk_with_a_s_mod_def first_line_def newline_def)
  have f: "FindModFile ''s'' ''a'' ?c
      = (Some ''a-s.mod'', ?c\<lparr>the_disk := disk_with_a_s_mod\<lparr>opened := [(''a-s.mod'', In_Only)]\<rparr>\<rparr>)"
    using FindModFile_first[of ?c "[]" "''.''" "[]" "''s''" "''a''"] a
    by (simp add: example_ancestor_def ModFilePath_submodule tried_def disk_with_a_s_mod_def)
  have v: "VerifyHeader ''a-s.mod'' (disk_with_a_s_mod\<lparr>opened := [(''a-s.mod'', In_Only)]\<rparr>)
      = (True, disk_with_a_s_mod\<lparr>opened := [(''a-s.mod'', In_Only), (''a-s.mod'', In_Out)]\<rparr>)"
    by (simp add: VerifyHeader_def stream_open_def Let_def disk_with_a_s_mod_def length_magic
        first_line_def after_first_line_def newline_def CheckSum_a magic_def)
  show ?thesis
    using n f v
    apply (simp add: Let_def example_parse_submodule_def GetSubmoduleParent_def)
    apply (simp add: splice_def example_ResolveNames_submodule_def example_ancestor_def
        example_submodule_loaded_def empty_scope_def Let_def fun_upd_twist)
    done
qed


text \<open>
  Where name resolution enters the submodule in the name map of its parent only, the
  early return is not taken: the second \<open>Read\<close> opens the file again and returns the scope
  that the second run of name resolution made.
\<close>

lemma Read_submodule_not_spliced:
  "Read example_parse_submodule (example_ResolveNames_submodule False) (Suc 0) ''s'' (Some 3)
     example_ancestor = Some (Returned (Some 12) (example_submodule_loaded False))
   \<and> \<not> submodule_spliced (Some 3) ''s'' 12 (example_submodule_loaded False)"
  using Read_example_submodule [of False]
  by (simp add: submodule_spliced_def example_submodule_loaded_def del: Read.simps)



section \<open>Linearization of a subprogram (the first stage of the lowering)\<close>

subsection \<open>The parse tree, as far as the walk reads it\<close>

text \<open>
  Labels of the source are numbers; so are the addresses the code compares or uses as
  keys: of a symbol (\<open>const semantics::Symbol *\<close>), of a construct name
  (\<open>const parser::Name *\<close>), of the DO statement of a loop.
\<close>

type_synonym Label = nat
type_synonym SymbolRef = nat
type_synonym NameRef = nat
type_synonym DoStmtRef = nat

text \<open>A specifier of an I/O statement; only the three label specifiers are told apart.\<close>

datatype IoSpec = ErrLabel Label | EorLabel Label | EndLabel Label | OtherSpec

datatype ActualArg = AltReturnSpec Label | OtherArg

text \<open>
  The action statements, each with what the lowering reads of it: label lists, the number
  of objects of ALLOCATE, DEALLOCATE and NULLIFY, the specifier list of an I/O statement
  (INQUIRE has the form with a list or the IOLENGTH form), the optional construct name of
  CYCLE and EXIT, whether RETURN has an expression.
\<close>

datatype ActionStmt =
    AllocateStmt nat
  | AssignmentStmt
  | BackspaceStmt "IoSpec list"
  | CallStmt "ActualArg list"
  | CloseStmt "IoSpec list"
  | ContinueStmt
  | CycleStmt "NameRef option"
  | DeallocateStmt nat
  | EndfileStmt "IoSpec list"
  | EventPostStmt
  | EventWaitStmt
  | ExitStmt "NameRef option"
  | FailImageStmt
  | FlushStmt "IoSpec list"
  | FormTeamStmt
  | GotoStmt Label
  | IfStmt
  | InquireStmt "IoSpec list option"
  | LockStmt
  | NullifyStmt nat
  | OpenStmt "IoSpec list"
  | PointerAssignmentStmt
  | PrintStmt
  | ReadStmt "IoSpec list"
  | ReturnStmt bool
  | RewindStmt "IoSpec list"
  | StopStmt
  | SyncAllStmt
  | SyncImagesStmt
  | SyncMemoryStmt
  | SyncTeamStmt
  | UnlockStmt
  | WaitStmt "IoSpec list"
  | WhereStmt
  | WriteStmt "IoSpec list"
  | ComputedGotoStmt "Label list"
  | ForallStmt
  | ArithmeticIfStmt Label Label Label
  | AssignStmt Label SymbolRef
  | AssignedGotoStmt SymbolRef "Label list"
  | PauseStmt

datatype LoopControl = LoopBounds bool | WhileExpr | Concurrent

datatype CaseValueRange = CaseValue | Range bool bool

datatype CaseSelector = CaseDefault | CaseValues "CaseValueRange list"

datatype Rank = RankExpr | RankStar | RankDefault

datatype Guard = GuardTypeSpec | GuardDerivedTypeSpec | GuardDefault

text \<open>
  What a block holds.  \<open>Stmt\<close> is a \<open>Statement<ActionStmt>\<close> with its optional label;
  \<open>OtherStmt\<close> is any other statement, of which the walk sees the label only.  A
  construct carries the optional name of its first statement and the blocks the walk
  descends into; the first and last statement of a construct are not walked.  The cases
  of a SELECT construct are two lists of the same length: what the statements of the
  cases select, and the blocks of the cases.  For WHERE
  and FORALL the list holds the statements and nested constructs of the body (for WHERE
  also of the masked ELSEWHERE and the ELSEWHERE parts) in the order of the walk.
\<close>

datatype Exec =
    Stmt "Label option" ActionStmt
  | OtherStmt "Label option"
  | AssociateConstruct "NameRef option" nat "Exec list"
  | BlockConstruct "NameRef option" "Exec list"
  | CaseConstruct "NameRef option" "CaseSelector list" "Exec list list"
  | ChangeTeamConstruct "NameRef option" "Exec list"
  | CriticalConstruct "NameRef option" "Exec list"
  | DoConstruct "NameRef option" DoStmtRef "LoopControl option" "Exec list"
  | IfConstruct "NameRef option" "Exec list" "Exec list list" "Exec list option"
  | SelectRankConstruct "NameRef option" "Rank list" "Exec list list"
  | SelectTypeConstruct "NameRef option" "Guard list" "Exec list list"
  | WhereConstruct "NameRef option" "Exec list"
  | ForallConstruct "NameRef option" "Exec list"

subsection \<open>Linear operations\<close>

type_synonym LinearLabelRef = nat

text \<open>\<open>unspecifiedLabel\<close> is \<open>~0u\<close>, the largest 32-bit unsigned number.\<close>

definition unspecifiedLabel :: LinearLabelRef where
  "unspecifiedLabel = 4294967295"

datatype GotoSource = FromCycleStmt | FromExitStmt | FromGotoStmt | LinearArtificial

datatype ReturnSource = FromFailImageStmt | FromReturnStmt bool | FromStopStmt

datatype CondSource = FromIfThenStmt | FromElseIfStmt | FromIfStmt | FromNonLabelDoStmt DoStmtRef "LoopControl option"

datatype IoStmtKind =
    IoRead | IoWrite | IoWait | IoOpen | IoClose | IoBackspace | IoEndfile | IoRewind
  | IoFlush | IoInquire

datatype SwitchSource =
    FromCallStmt | FromComputedGotoStmt | FromArithmeticIfStmt
  | FromCaseConstruct "CaseSelector list"
  | FromSelectRankConstruct "Rank list"
  | FromSelectTypeConstruct "Guard list"

text \<open>The construct a begin or end marker points to, with what the second stage reads
  of its first statement.\<close>

datatype Construct =
    Associate nat | Block | Case | ChangeTeam | Critical
  | Do DoStmtRef "LoopControl option" | If | SelectRank | SelectType | Where | Forall
  | CompilerDirective | OpenMPConstruct | OpenMPEndLoopDirective

datatype LinearOp =
    LinearLabel LinearLabelRef
  | LinearGoto GotoSource LinearLabelRef
  | LinearReturn ReturnSource
  | LinearConditionalGoto CondSource LinearLabelRef LinearLabelRef
  | LinearSwitchingIO IoStmtKind LinearLabelRef "LinearLabelRef option"
      "LinearLabelRef option" "LinearLabelRef option"
  | LinearSwitch SwitchSource "LinearLabelRef list"
  | LinearAction ActionStmt
  | LinearBeginConstruct Construct
  | LinearEndConstruct Construct
  | LinearIndirectGoto SymbolRef "LinearLabelRef list"
  | LinearDoIncrement DoStmtRef
  | LinearDoCompare DoStmtRef

subsection \<open>Analysis data: labels, the name stack, assigned labels\<close>

text \<open>How the lowering can stop: a failed \<open>CHECK\<close>, \<open>SEMANTICS_FAILED\<close>,
  \<open>WRONG_PATH\<close>, an exception of \<open>std::get\<close>, a null pointer that is used, or an
  access past the end of a container.\<close>

datatype abort =
    CheckFails | SemanticsFailed | WrongPath | BadVariant | NullDereference | OutOfRange

text \<open>A step that can stop, followed by the next step.\<close>

definition then_do :: "abort + 'a \<Rightarrow> ('a \<Rightarrow> abort + 'b) \<Rightarrow> abort + 'b" where
  "then_do r f = (case r of Inl a \<Rightarrow> Inl a | Inr x \<Rightarrow> f x)"

text \<open>
  \<open>labelMap\<close> interns the labels of the source.  \<open>nameStack\<close> holds, for each construct
  that is open, its name, its exit label and its increment label (\<open>unspecifiedLabel\<close>
  unless it is a DO construct); the last element is the innermost construct.  \<open>counter\<close>
  and \<open>referenced\<close> are the label builder: an \<open>unsigned\<close> counter and a
  \<open>std::vector<bool>\<close> constructed with 32 elements.  \<open>assignMap\<close> maps a symbol to the
  set of labels assigned to it, a sorted list without repetition as \<open>std::set\<close> iterates
  it.
\<close>

record AnalysisData =
  labelMap :: "Label \<rightharpoonup> LinearLabelRef"
  nameStack :: "(NameRef option \<times> LinearLabelRef \<times> LinearLabelRef) list"
  counter :: nat
  referenced :: "bool list"
  assignMap :: "SymbolRef \<rightharpoonup> Label list"

definition empty_AnalysisData :: AnalysisData where
  "empty_AnalysisData =
     \<lparr>labelMap = Map.empty, nameStack = [], counter = 0, referenced = replicate 32 False,
      assignMap = Map.empty\<rparr>"

text \<open>
  \<open>LinearLabelBuilder::getNext\<close> and \<open>setReferenced\<close>.  The counter wraps at
  \<open>2\<^sup>3\<^sup>2\<close>.  \<open>reserve\<close> changes the capacity of the vector, never its size, so the
  vector keeps its 32 elements; \<open>referenced[next]\<close> with an index that is not below the
  size is undefined behaviour, which the model reports as \<open>OutOfRange\<close>.
\<close>

definition getNext :: "AnalysisData \<Rightarrow> abort + (LinearLabelRef \<times> AnalysisData)" where
  "getNext ad =
     (let next = counter ad
      in if next < length (referenced ad)
         then Inr (next, ad\<lparr>counter := (next + 1) mod 4294967296,
                             referenced := (referenced ad)[next := False]\<rparr>)
         else Inl OutOfRange)"

definition setReferenced :: "LinearLabelRef \<Rightarrow> AnalysisData \<Rightarrow> abort + AnalysisData" where
  "setReferenced label ad =
     (if label < length (referenced ad)
      then Inr (ad\<lparr>referenced := (referenced ad)[label := True]\<rparr>)
      else Inl OutOfRange)"

definition BuildNewLabel :: "AnalysisData \<Rightarrow> abort + (LinearLabelRef \<times> AnalysisData)" where
  "BuildNewLabel ad = getNext ad"

text \<open>\<open>GetLabelRef\<close> of a linear label marks it referenced.\<close>

definition GetLabelRef ::
  "LinearLabelRef \<Rightarrow> AnalysisData \<Rightarrow> abort + (LinearLabelRef \<times> AnalysisData)" where
  "GetLabelRef label ad = then_do (setReferenced label ad) (\<lambda>ad1. Inr (label, ad1))"

text \<open>\<open>FetchLabel\<close>: a label of the source not seen before gets a new linear label,
  marked referenced.\<close>

definition FetchLabel :: "Label \<Rightarrow> AnalysisData \<Rightarrow> abort + (LinearLabelRef \<times> AnalysisData)" where
  "FetchLabel label ad =
     (case labelMap ad label of
        None \<Rightarrow>
          then_do (getNext ad) (\<lambda>(ll, ad1).
          then_do (setReferenced ll ad1) (\<lambda>ad2.
            Inr (ll, ad2\<lparr>labelMap := (labelMap ad2)(label \<mapsto> ll)\<rparr>)))
      | Some ll \<Rightarrow> Inr (ll, ad))"

text \<open>\<open>ControlFlowAnalyzer::findLabel\<close>, for the label a statement carries: the same
  interning, but the new label is not marked.\<close>

definition findLabel :: "Label \<Rightarrow> AnalysisData \<Rightarrow> abort + (LinearLabelRef \<times> AnalysisData)" where
  "findLabel lab ad =
     (case labelMap ad lab of
        None \<Rightarrow>
          then_do (getNext ad) (\<lambda>(ll, ad1).
            Inr (ll, ad1\<lparr>labelMap := (labelMap ad1)(lab \<mapsto> ll)\<rparr>))
      | Some ll \<Rightarrow> Inr (ll, ad))"

text \<open>Insertion into a \<open>std::set\<close> of labels.\<close>

fun set_insert :: "Label \<Rightarrow> Label list \<Rightarrow> Label list" where
  "set_insert x [] = [x]"
| "set_insert x (y # ys) =
     (if x < y then x # y # ys else if x = y then y # ys else y # set_insert x ys)"

definition AddAssign :: "SymbolRef \<Rightarrow> Label \<Rightarrow> AnalysisData \<Rightarrow> AnalysisData" where
  "AddAssign symbol label ad =
     ad\<lparr>assignMap := (assignMap ad)
           (symbol \<mapsto> set_insert label (case assignMap ad symbol of None \<Rightarrow> [] | Some s \<Rightarrow> s))\<rparr>"

text \<open>
  \<open>GetAssign\<close> copies the labels of the set into the result as they are: each
  \<open>parser::Label\<close> (64 bits) becomes a \<open>LinearLabelRef\<close> (32 bits) by conversion, not
  through \<open>FetchLabel\<close>.  The lookup \<open>ad.assignMap[symbol]\<close> adds an empty set for a
  symbol that has none.
\<close>

definition GetAssign :: "SymbolRef \<Rightarrow> AnalysisData \<Rightarrow> LinearLabelRef list \<times> AnalysisData" where
  "GetAssign symbol ad =
     (case assignMap ad symbol of
        None \<Rightarrow> ([], ad\<lparr>assignMap := (assignMap ad)(symbol \<mapsto> [])\<rparr>)
      | Some labs \<Rightarrow> (map (\<lambda>lab. lab mod 4294967296) labs, ad))"

text \<open>\<open>FindStack\<close> looks from the innermost construct outwards for the entry whose name
  pointer equals the key.\<close>

definition FindStack ::
  "(NameRef option \<times> LinearLabelRef \<times> LinearLabelRef) list \<Rightarrow> NameRef
     \<Rightarrow> abort + (NameRef option \<times> LinearLabelRef \<times> LinearLabelRef)" where
  "FindStack stack key =
     (case find (\<lambda>e. fst e = Some key) (rev stack) of
        Some e \<Rightarrow> Inr e
      | None \<Rightarrow> Inl SemanticsFailed)"

text \<open>\<open>NearestEnclosingDoConstruct\<close> looks from the innermost construct outwards for
  the first entry whose third component is a label, and returns that component.\<close>

definition NearestEnclosingDoConstruct :: "AnalysisData \<Rightarrow> abort + LinearLabelRef" where
  "NearestEnclosingDoConstruct ad =
     (case find (\<lambda>e. snd (snd e) \<noteq> unspecifiedLabel) (rev (nameStack ad)) of
        Some e \<Rightarrow> Inr (snd (snd e))
      | None \<Rightarrow> Inl SemanticsFailed)"


subsection \<open>Action statements: LinearOp::Build\<close>

text \<open>\<open>GetErr\<close>, \<open>GetEor\<close>, \<open>GetEnd\<close>: the label of the first such specifier, 0 if there
  is none.\<close>

fun GetErr :: "IoSpec list \<Rightarrow> Label" where
  "GetErr [] = 0"
| "GetErr (ErrLabel v # specs) = v"
| "GetErr (spec # specs) = GetErr specs"

fun GetEor :: "IoSpec list \<Rightarrow> Label" where
  "GetEor [] = 0"
| "GetEor (EorLabel v # specs) = v"
| "GetEor (spec # specs) = GetEor specs"

fun GetEnd :: "IoSpec list \<Rightarrow> Label" where
  "GetEnd [] = 0"
| "GetEnd (EndLabel v # specs) = v"
| "GetEnd (spec # specs) = GetEnd specs"

type_synonym lin_state = "LinearOp list \<times> AnalysisData"

text \<open>An optional reference for a label of the source: none for label 0.\<close>

definition fetch_if_present ::
  "Label \<Rightarrow> AnalysisData \<Rightarrow> abort + (LinearLabelRef option \<times> AnalysisData)" where
  "fetch_if_present lab ad =
     (if lab \<noteq> 0 then then_do (FetchLabel lab ad) (\<lambda>(r, ad'). Inr (Some r, ad'))
      else Inr (None, ad))"

text \<open>\<open>errLabelSpec\<close>, written for the statements that can only have \<open>ERR=\<close>.\<close>

definition errLabelSpec ::
  "IoStmtKind \<Rightarrow> IoSpec list \<Rightarrow> ActionStmt \<Rightarrow> lin_state \<Rightarrow> abort + lin_state" where
  "errLabelSpec kind specs ec st =
     (case st of (ops, ad) \<Rightarrow>
        let errLab = GetErr specs
        in if errLab \<noteq> 0
           then then_do (FetchLabel errLab ad) (\<lambda>(errRef, ad1).
                then_do (BuildNewLabel ad1) (\<lambda>(next, ad2).
                  Inr (ops @ [LinearSwitchingIO kind next (Some errRef) None None,
                              LinearLabel next], ad2)))
           else Inr (ops @ [LinearAction ec], ad))"

text \<open>\<open>threeLabelSpec\<close>, written for READ, WRITE and WAIT.\<close>

definition threeLabelSpec ::
  "IoStmtKind \<Rightarrow> IoSpec list \<Rightarrow> ActionStmt \<Rightarrow> lin_state \<Rightarrow> abort + lin_state" where
  "threeLabelSpec kind specs ec st =
     (case st of (ops, ad) \<Rightarrow>
        let errLab = GetErr specs; eorLab = GetEor specs; endLab = GetEnd specs
        in if errLab \<noteq> 0 \<or> eorLab \<noteq> 0 \<or> endLab \<noteq> 0
           then then_do (fetch_if_present errLab ad) (\<lambda>(errRef, ad1).
                then_do (fetch_if_present eorLab ad1) (\<lambda>(eorRef, ad2).
                then_do (fetch_if_present endLab ad2) (\<lambda>(endRef, ad3).
                then_do (BuildNewLabel ad3) (\<lambda>(next, ad4).
                  Inr (ops @ [LinearSwitchingIO kind next errRef eorRef endRef,
                              LinearLabel next], ad4)))))
           else Inr (ops @ [LinearAction ec], ad))"

text \<open>\<open>toLabelRef\<close>: \<open>FetchLabel\<close> for each label, in order.\<close>

fun toLabelRef :: "Label list \<Rightarrow> AnalysisData \<Rightarrow> abort + (LinearLabelRef list \<times> AnalysisData)" where
  "toLabelRef [] ad = Inr ([], ad)"
| "toLabelRef (label # labels) ad =
     then_do (FetchLabel label ad) (\<lambda>(r, ad1).
     then_do (toLabelRef labels ad1) (\<lambda>(rs, ad2). Inr (r # rs, ad2)))"

fun getAltReturnLabels :: "ActualArg list \<Rightarrow> Label list" where
  "getAltReturnLabels [] = []"
| "getAltReturnLabels (AltReturnSpec v # args) = v # getAltReturnLabels args"
| "getAltReturnLabels (OtherArg # args) = getAltReturnLabels args"

fun hasAltReturns :: "ActualArg list \<Rightarrow> bool" where
  "hasAltReturns [] = False"
| "hasAltReturns (AltReturnSpec v # args) = True"
| "hasAltReturns (OtherArg # args) = hasAltReturns args"

text \<open>A switch whose fall-through label is made first and put last: the CALL with
  alternate returns and the computed GOTO.\<close>

definition switch_with_next ::
  "SwitchSource \<Rightarrow> Label list \<Rightarrow> lin_state \<Rightarrow> abort + lin_state" where
  "switch_with_next src labs st =
     (case st of (ops, ad) \<Rightarrow>
        then_do (BuildNewLabel ad) (\<lambda>(next, ad1).
        then_do (toLabelRef labs ad1) (\<lambda>(labels, ad2).
          Inr (ops @ [LinearSwitch src (labels @ [next]), LinearLabel next], ad2))))"

text \<open>
  \<open>LinearOp::Build\<close> visits the alternative that the action statement holds.  The
  alternatives are \<open>common::Indirection<parser::X>\<close> (and \<open>FailImageStmt\<close> itself, which
  is empty); they are what the second stage visits in \<open>handleActionStatement\<close>.  The
  visitors of \<open>Build\<close> for READ, WRITE, WAIT, OPEN, CLOSE, BACKSPACE, ENDFILE, REWIND, FLUSH
  and INQUIRE are declared for \<open>common::Indirection<const parser::X>\<close>, which is another
  type and no alternative of the statement: they are never chosen, and these statements
  are taken by the visitor for every other statement, the last equation.  So
  \<open>threeLabelSpec\<close> and \<open>errLabelSpec\<close> are never called.
\<close>

fun Build :: "ActionStmt \<Rightarrow> lin_state \<Rightarrow> abort + lin_state" where
  "Build (CallStmt args) (ops, ad) =
     (if hasAltReturns args
      then switch_with_next FromCallStmt (getAltReturnLabels args) (ops, ad)
      else Inr (ops @ [LinearAction (CallStmt args)], ad))"
| "Build (AssignStmt label symbol) (ops, ad) =
     Inr (ops @ [LinearAction (AssignStmt label symbol)], AddAssign symbol label ad)"
| "Build (CycleStmt name) (ops, ad) =
     then_do (case name of
                Some key \<Rightarrow> then_do (FindStack (nameStack ad) key) (\<lambda>e. Inr (snd (snd e)))
              | None \<Rightarrow> NearestEnclosingDoConstruct ad)
       (\<lambda>target. Inr (ops @ [LinearGoto FromCycleStmt target], ad))"
| "Build (ExitStmt name) (ops, ad) =
     then_do (case name of
                Some key \<Rightarrow> then_do (FindStack (nameStack ad) key) (\<lambda>e. Inr (fst (snd e)))
              | None \<Rightarrow> NearestEnclosingDoConstruct ad)
       (\<lambda>target. Inr (ops @ [LinearGoto FromExitStmt target], ad))"
| "Build (GotoStmt label) (ops, ad) =
     then_do (FetchLabel label ad) (\<lambda>(r, ad1). Inr (ops @ [LinearGoto FromGotoStmt r], ad1))"
| "Build FailImageStmt (ops, ad) = Inr (ops @ [LinearReturn FromFailImageStmt], ad)"
| "Build (ReturnStmt e) (ops, ad) = Inr (ops @ [LinearReturn (FromReturnStmt e)], ad)"
| "Build StopStmt (ops, ad) =
     Inr (ops @ [LinearAction StopStmt, LinearReturn FromStopStmt], ad)"
| "Build (ComputedGotoStmt labels) (ops, ad) =
     switch_with_next FromComputedGotoStmt labels (ops, ad)"
| "Build (ArithmeticIfStmt l1 l2 l3) (ops, ad) =
     then_do (toLabelRef [l1, l2, l3] ad) (\<lambda>(labels, ad1).
       Inr (ops @ [LinearSwitch FromArithmeticIfStmt labels], ad1))"
| "Build (AssignedGotoStmt symbol labels) (ops, ad) =
     then_do (toLabelRef labels ad) (\<lambda>(labelRefs, ad1).
       Inr (ops @ [LinearIndirectGoto symbol labelRefs], ad1))"
| "Build IfStmt (ops, ad) =
     then_do (BuildNewLabel ad) (\<lambda>(then_label, ad1).
     then_do (BuildNewLabel ad1) (\<lambda>(endif, ad2).
       Inr (ops @ [LinearConditionalGoto FromIfStmt then_label endif, LinearLabel then_label,
                   LinearAction IfStmt, LinearLabel endif], ad2)))"
| "Build s (ops, ad) = Inr (ops @ [LinearAction s], ad)"


subsection \<open>The walk over blocks and constructs: ControlFlowAnalyzer\<close>

text \<open>\<open>n\<close> new labels, as the loop \<open>toLabels.emplace_back(buildNewLabel())\<close> makes them.\<close>

fun new_labels :: "nat \<Rightarrow> AnalysisData \<Rightarrow> abort + (LinearLabelRef list \<times> AnalysisData)" where
  "new_labels 0 ad = Inr ([], ad)"
| "new_labels (Suc n) ad =
     then_do (BuildNewLabel ad) (\<lambda>(l, ad1).
     then_do (new_labels n ad1) (\<lambda>(ls, ad2). Inr (l # ls, ad2)))"

text \<open>\<open>GetLabelRef\<close> for several labels, one after the other.\<close>

fun mark_all :: "LinearLabelRef list \<Rightarrow> AnalysisData \<Rightarrow> abort + AnalysisData" where
  "mark_all [] ad = Inr ad"
| "mark_all (l # ls) ad = then_do (setReferenced l ad) (mark_all ls)"

definition push_name ::
  "NameRef option \<Rightarrow> LinearLabelRef \<Rightarrow> LinearLabelRef \<Rightarrow> AnalysisData \<Rightarrow> AnalysisData" where
  "push_name name exitLabel incrementLabel ad =
     ad\<lparr>nameStack := nameStack ad @ [(name, exitLabel, incrementLabel)]\<rparr>"

definition pop_name :: "AnalysisData \<Rightarrow> AnalysisData" where
  "pop_name ad = ad\<lparr>nameStack := butlast (nameStack ad)\<rparr>"

text \<open>
  The constructs that \<open>linearConstruct\<close> handles, and BLOCK, WHERE and FORALL, which have
  the same start: a new label that is the exit of the construct, the entry of the name
  stack, the begin marker.
\<close>

definition enter_construct ::
  "Construct \<Rightarrow> NameRef option \<Rightarrow> AnalysisData \<Rightarrow> abort + (LinearLabelRef \<times> lin_state)" where
  "enter_construct c name ad =
     then_do (BuildNewLabel ad) (\<lambda>(label, ad1).
     then_do (setReferenced label ad1) (\<lambda>ad2.
       Inr (label, [LinearBeginConstruct c], push_name name label unspecifiedLabel ad2)))"

text \<open>The end of every construct: its operations, then those in \<open>closing\<close>, are spliced
  to the end of the list of the enclosing walk, and the entry of the name stack is
  popped.\<close>

definition leave_construct ::
  "LinearOp list \<Rightarrow> LinearOp list \<Rightarrow> lin_state \<Rightarrow> abort + lin_state" where
  "leave_construct linearOps closing st =
     (case st of (ops, ad) \<Rightarrow> Inr (linearOps @ ops @ closing, pop_name ad))"

text \<open>The start of a DO construct: four labels, the entry of the name stack with the
  exit and the increment label, and the operations before the body.\<close>

definition enter_do ::
  "NameRef option \<Rightarrow> DoStmtRef \<Rightarrow> LoopControl option \<Rightarrow> AnalysisData
     \<Rightarrow> abort + ((LinearLabelRef \<times> LinearLabelRef) \<times> lin_state)" where
  "enter_do name stmt ctrl ad =
     then_do (BuildNewLabel ad) (\<lambda>(backedgeLab, ad1).
     then_do (BuildNewLabel ad1) (\<lambda>(incrementLab, ad2).
     then_do (BuildNewLabel ad2) (\<lambda>(entryLab, ad3).
     then_do (BuildNewLabel ad3) (\<lambda>(exitLab, ad4).
     then_do (mark_all [exitLab, incrementLab] ad4) (\<lambda>ad5.
     then_do (mark_all [backedgeLab, entryLab] (push_name name exitLab incrementLab ad5)) (\<lambda>ad6.
       Inr ((incrementLab, exitLab),
            [LinearBeginConstruct (Do stmt ctrl),
             LinearGoto LinearArtificial backedgeLab,
             LinearLabel incrementLab,
             LinearDoIncrement stmt,
             LinearLabel backedgeLab,
             LinearDoCompare stmt,
             LinearConditionalGoto (FromNonLabelDoStmt stmt ctrl) entryLab exitLab,
             LinearLabel entryLab],
            ad6)))))))"

definition enter_if ::
  "NameRef option \<Rightarrow> AnalysisData \<Rightarrow> abort + ((LinearLabelRef \<times> LinearLabelRef) \<times> lin_state)" where
  "enter_if name ad =
     then_do (BuildNewLabel ad) (\<lambda>(thenLab, ad1).
     then_do (BuildNewLabel ad1) (\<lambda>(elseLab, ad2).
     then_do (BuildNewLabel ad2) (\<lambda>(exitLab, ad3).
     then_do (setReferenced exitLab ad3) (\<lambda>ad4.
     then_do (mark_all [thenLab, elseLab] (push_name name exitLab unspecifiedLabel ad4)) (\<lambda>ad5.
       Inr ((elseLab, exitLab),
            [LinearBeginConstruct If,
             LinearConditionalGoto FromIfThenStmt thenLab elseLab,
             LinearLabel thenLab],
            ad5))))))"

text \<open>The start of \<open>Multiway\<close>: the exit label, and for \<open>N > 0\<close> cases \<open>N\<close> labels
  and the switch on them.\<close>

definition enter_multiway ::
  "Construct \<Rightarrow> (LinearLabelRef list \<Rightarrow> LinearOp) \<Rightarrow> NameRef option \<Rightarrow> nat \<Rightarrow> AnalysisData
     \<Rightarrow> abort + ((LinearLabelRef list \<times> LinearLabelRef) \<times> lin_state)" where
  "enter_multiway c switch name N ad =
     then_do (BuildNewLabel ad) (\<lambda>(exitLab, ad1).
     then_do (setReferenced exitLab ad1) (\<lambda>ad2.
     then_do (setReferenced exitLab (push_name name exitLab unspecifiedLabel ad2)) (\<lambda>ad3.
       if N > 0
       then then_do (new_labels N ad3) (\<lambda>(toLabels, ad4).
            then_do (mark_all toLabels ad4) (\<lambda>ad5.
              Inr ((toLabels, exitLab), [LinearBeginConstruct c, switch toLabels], ad5)))
       else Inr (([], exitLab), [LinearBeginConstruct c], ad3))))"

text \<open>
  The walk.  A statement with a label first gives the label operation.  Each construct
  builds its operations in a list of its own, which is spliced to the end of the list of
  the enclosing walk, and pops its entry of the name stack.  The functions on lists walk
  the blocks of a construct; that for the cases takes the labels that are left and the
  exit label, that for the ELSE IF blocks the current else label and the exit label.
\<close>

primrec linearize :: "Exec \<Rightarrow> lin_state \<Rightarrow> abort + lin_state"
  and walk_block :: "Exec list \<Rightarrow> lin_state \<Rightarrow> abort + lin_state"
  and walk_cases :: "Exec list list \<Rightarrow> LinearLabelRef list \<Rightarrow> LinearLabelRef
       \<Rightarrow> lin_state \<Rightarrow> abort + lin_state"
  and walk_else_ifs :: "Exec list list \<Rightarrow> LinearLabelRef \<Rightarrow> LinearLabelRef
       \<Rightarrow> lin_state \<Rightarrow> abort + (LinearLabelRef \<times> lin_state)"
  and walk_else :: "Exec list option \<Rightarrow> lin_state \<Rightarrow> abort + lin_state"
where
  "linearize (Stmt label stmt) = (\<lambda>st.
     case label of
       Some lab \<Rightarrow> then_do (findLabel lab (snd st)) (\<lambda>(ll, ad1).
                     Build stmt (fst st @ [LinearLabel ll], ad1))
     | None \<Rightarrow> Build stmt st)"
| "linearize (OtherStmt label) = (\<lambda>st.
     case label of
       Some lab \<Rightarrow> then_do (findLabel lab (snd st)) (\<lambda>(ll, ad1).
                     Inr (fst st @ [LinearLabel ll], ad1))
     | None \<Rightarrow> Inr st)"
| "linearize (AssociateConstruct name n block) = (\<lambda>st.
     then_do (enter_construct (Associate n) name (snd st)) (\<lambda>(label, st1).
     then_do (walk_block block st1)
       (leave_construct (fst st) [LinearLabel label, LinearEndConstruct (Associate n)])))"
| "linearize (BlockConstruct name block) = (\<lambda>st.
     then_do (enter_construct Block name (snd st)) (\<lambda>(label, st1).
     then_do (walk_block block st1)
       (leave_construct (fst st) [LinearEndConstruct Block, LinearLabel label])))"
| "linearize (CaseConstruct name selectors cases) = (\<lambda>st.
     then_do (enter_multiway Case (LinearSwitch (FromCaseConstruct selectors)) name
                (length cases) (snd st)) (\<lambda>((toLabels, exitLab), st1).
     then_do (walk_cases cases toLabels exitLab st1)
       (leave_construct (fst st) [LinearLabel exitLab, LinearEndConstruct Case])))"
| "linearize (ChangeTeamConstruct name block) = (\<lambda>st.
     then_do (enter_construct ChangeTeam name (snd st)) (\<lambda>(label, st1).
     then_do (walk_block block st1)
       (leave_construct (fst st) [LinearLabel label, LinearEndConstruct ChangeTeam])))"
| "linearize (CriticalConstruct name block) = (\<lambda>st.
     then_do (enter_construct Critical name (snd st)) (\<lambda>(label, st1).
     then_do (walk_block block st1)
       (leave_construct (fst st) [LinearLabel label, LinearEndConstruct Critical])))"
| "linearize (DoConstruct name stmt ctrl block) = (\<lambda>st.
     then_do (enter_do name stmt ctrl (snd st)) (\<lambda>((incrementLab, exitLab), st1).
     then_do (walk_block block st1) (\<lambda>(ops, ad).
     then_do (setReferenced incrementLab ad) (\<lambda>ad1.
       leave_construct (fst st)
         [LinearGoto LinearArtificial incrementLab,
          LinearEndConstruct (Do stmt ctrl), LinearLabel exitLab]
         (ops, ad1)))))"
| "linearize (IfConstruct name block else_ifs else_block) = (\<lambda>st.
     then_do (enter_if name (snd st)) (\<lambda>((elseLab, exitLab), st1).
     then_do (walk_block block st1) (\<lambda>(ops1, ad1).
     then_do (setReferenced exitLab ad1) (\<lambda>ad2.
     then_do (walk_else_ifs else_ifs elseLab exitLab
                (ops1 @ [LinearGoto LinearArtificial exitLab], ad2)) (\<lambda>(elseLab', ops2, ad3).
     then_do (walk_else else_block (ops2 @ [LinearLabel elseLab'], ad3))
       (leave_construct (fst st)
          [LinearGoto LinearArtificial exitLab, LinearLabel exitLab,
           LinearEndConstruct If]))))))"
| "linearize (SelectRankConstruct name ranks cases) = (\<lambda>st.
     then_do (enter_multiway SelectRank (LinearSwitch (FromSelectRankConstruct ranks)) name
                (length cases) (snd st)) (\<lambda>((toLabels, exitLab), st1).
     then_do (walk_cases cases toLabels exitLab st1)
       (leave_construct (fst st) [LinearLabel exitLab, LinearEndConstruct SelectRank])))"
| "linearize (SelectTypeConstruct name guards cases) = (\<lambda>st.
     then_do (enter_multiway SelectType (LinearSwitch (FromSelectTypeConstruct guards)) name
                (length cases) (snd st)) (\<lambda>((toLabels, exitLab), st1).
     then_do (walk_cases cases toLabels exitLab st1)
       (leave_construct (fst st) [LinearLabel exitLab, LinearEndConstruct SelectType])))"
| "linearize (WhereConstruct name items) = (\<lambda>st.
     then_do (enter_construct Where name (snd st)) (\<lambda>(label, st1).
     then_do (walk_block items st1)
       (leave_construct (fst st) [LinearLabel label, LinearEndConstruct Where])))"
| "linearize (ForallConstruct name items) = (\<lambda>st.
     then_do (enter_construct Forall name (snd st)) (\<lambda>(label, st1).
     then_do (walk_block items st1)
       (leave_construct (fst st) [LinearLabel label, LinearEndConstruct Forall])))"
| "walk_block [] = (\<lambda>st. Inr st)"
| "walk_block (x # xs) = (\<lambda>st. then_do (linearize x st) (walk_block xs))"
| "walk_cases [] = (\<lambda>toLabels exitLab st. Inr st)"
| "walk_cases (c # cs) = (\<lambda>toLabels exitLab st.
     case toLabels of
       [] \<Rightarrow> Inl OutOfRange
     | l # ls \<Rightarrow>
         then_do (walk_block c (fst st @ [LinearLabel l], snd st)) (\<lambda>(ops1, ad1).
           walk_cases cs ls exitLab (ops1 @ [LinearGoto LinearArtificial exitLab], ad1)))"
| "walk_else_ifs [] = (\<lambda>elseLab exitLab st. Inr (elseLab, st))"
| "walk_else_ifs (b # bs) = (\<lambda>elseLab exitLab st.
     then_do (BuildNewLabel (snd st)) (\<lambda>(newThenLab, ad1).
     then_do (BuildNewLabel ad1) (\<lambda>(newElseLab, ad2).
     then_do (mark_all [newThenLab, newElseLab] ad2) (\<lambda>ad3.
     then_do (walk_block b
                (fst st @ [LinearLabel elseLab,
                           LinearConditionalGoto FromElseIfStmt newThenLab newElseLab,
                           LinearLabel newThenLab],
                 ad3)) (\<lambda>(ops1, ad4).
       walk_else_ifs bs newElseLab exitLab
         (ops1 @ [LinearGoto LinearArtificial exitLab], ad4))))))"
| "walk_else None = (\<lambda>st. Inr st)"
| "walk_else (Some b) = (\<lambda>st. walk_block b st)"

text \<open>The linear operations of a subprogram, from fresh analysis data.\<close>

definition linearize_routine :: "Exec list \<Rightarrow> abort + lin_state" where
  "linearize_routine here = walk_block here ([], empty_AnalysisData)"

lemma then_do_simps [simp]:
  "then_do (Inl a) f = Inl a"
  "then_do (Inr x) f = f x"
  by (simp_all add: then_do_def)


end
